theory Spec2Isabelle
  imports Complex_Main "HOL-Library.Sublist" "HOL-Library.AList"
begin

text \<open>
  The core of the VNG data analyzer: the text parser \<open>parseVngText\<close>
  (\<open>modules/parser.js\<close>, \<open>src/unnamed/part_004\<close>), the statistics functions
  \<open>calculateStdDev\<close> and \<open>calculatePercentChange\<close> (\<open>utils/statistics.js\<close>,
  \<open>src/unnamed/part_003\<close>) and the cross-file analyzer \<open>runAnalysis\<close>
  (\<open>modules/analyzer.js\<close>, \<open>src/unnamed/part_002\<close>). Line numbers below are those of
  these files.
\<close>

section \<open>JavaScript values\<close>

text \<open>
  The repository is JavaScript. A number is modelled as an exact real or \<open>NaN\<close>:
  the rounding of IEEE doubles and overflow to an infinity are not modelled. Every
  division in the modelled code has a divisor that the code has checked to be nonzero
  or that is a positive array length.
\<close>

datatype jsnum = Num real | NaN

datatype jsval = Null | Undefined | Number jsnum

fun jsadd :: "jsnum \<Rightarrow> jsnum \<Rightarrow> jsnum" where
  "jsadd (Num a) (Num b) = Num (a + b)"
| "jsadd _ _ = NaN"

fun jssub :: "jsnum \<Rightarrow> jsnum \<Rightarrow> jsnum" where
  "jssub (Num a) (Num b) = Num (a - b)"
| "jssub _ _ = NaN"

fun jsmul :: "jsnum \<Rightarrow> jsnum \<Rightarrow> jsnum" where
  "jsmul (Num a) (Num b) = Num (a * b)"
| "jsmul _ _ = NaN"

text \<open>Division by zero gives an infinity or \<open>NaN\<close> in JavaScript; no call in this
  theory reaches that case, which is mapped to \<open>NaN\<close>.\<close>

fun jsdiv :: "jsnum \<Rightarrow> jsnum \<Rightarrow> jsnum" where
  "jsdiv (Num a) (Num b) = (if b = 0 then NaN else Num (a / b))"
| "jsdiv _ _ = NaN"

text \<open>\<open>Math.pow(x, 2)\<close> and \<open>Math.sqrt\<close>.\<close>

fun jssquare :: "jsnum \<Rightarrow> jsnum" where
  "jssquare (Num a) = Num (a * a)"
| "jssquare NaN = NaN"

fun jssqrt :: "jsnum \<Rightarrow> jsnum" where
  "jssqrt (Num a) = (if a < 0 then NaN else Num (sqrt a))"
| "jssqrt NaN = NaN"

text \<open>\<open>ToNumber\<close> on the three kinds of value: \<open>null\<close> is 0, \<open>undefined\<close> is \<open>NaN\<close>.\<close>

fun toNumber :: "jsval \<Rightarrow> jsnum" where
  "toNumber Null = Num 0"
| "toNumber Undefined = NaN"
| "toNumber (Number n) = n"

text \<open>The global \<open>isNaN\<close> converts its argument with \<open>ToNumber\<close> first.\<close>

definition isNaN :: "jsval \<Rightarrow> bool" where
  "isNaN v = (toNumber v = NaN)"

section \<open>Strings\<close>

text \<open>
  A string is a list of code units; the model covers the code units below 256, which
  it reads as Latin-1. White space (what \<open>trim\<close> removes and \<open>\s\<close> matches) is then
  TAB, LF, VT, FF, CR, SPACE and NBSP.
\<close>

definition isSpace :: "char \<Rightarrow> bool" where
  "isSpace c = (of_char c \<in> {9, 10, 11, 12, 13, 32, 160 :: nat})"

definition isDigit :: "char \<Rightarrow> bool" where
  "isDigit c = (48 \<le> (of_char c :: nat) \<and> (of_char c :: nat) \<le> 57)"

definition isLetter :: "char \<Rightarrow> bool" where
  "isLetter c = ((65 \<le> (of_char c :: nat) \<and> (of_char c :: nat) \<le> 90)
     \<or> (97 \<le> (of_char c :: nat) \<and> (of_char c :: nat) \<le> 122))"

definition trimStart :: "string \<Rightarrow> string" where
  "trimStart s = dropWhile isSpace s"

definition trimEnd :: "string \<Rightarrow> string" where
  "trimEnd s = rev (dropWhile isSpace (rev s))"

definition trim :: "string \<Rightarrow> string" where
  "trim s = trimEnd (trimStart s)"

text \<open>\<open>s.split(sep)\<close> for a non-empty separator: the pieces between the
  non-overlapping occurrences of \<open>sep\<close>, found from the left. The source splits at
  line feeds and at \<open>::\<close> only.\<close>

function splitAcc :: "string \<Rightarrow> string \<Rightarrow> string \<Rightarrow> string list" where
  "splitAcc sep acc [] = [rev acc]"
| "splitAcc sep acc (c # cs) =
     (if prefix sep (c # cs) then rev acc # splitAcc sep [] (drop (length sep - 1) cs)
      else splitAcc sep (c # acc) cs)"
  by pat_completeness auto
termination
  by (relation "measure (\<lambda>(sep, acc, s). length s)") auto

definition splitStr :: "string \<Rightarrow> string \<Rightarrow> string list" where
  "splitStr s sep = splitAcc sep [] s"

definition endsWith :: "string \<Rightarrow> string \<Rightarrow> bool" where
  "endsWith s t = suffix t s"

fun includesStr :: "string \<Rightarrow> string \<Rightarrow> bool" where
  "includesStr [] t = (t = [])"
| "includesStr (c # cs) t = (prefix t (c # cs) \<or> includesStr cs t)"

text \<open>\<open>s.indexOf(c)\<close>, with \<open>None\<close> for \<open>-1\<close>.\<close>

fun indexOf :: "string \<Rightarrow> char \<Rightarrow> nat option" where
  "indexOf [] c = None"
| "indexOf (x # xs) c = (if x = c then Some 0 else map_option Suc (indexOf xs c))"

section \<open>Regular expressions\<close>

text \<open>
  The two regular expressions of the parser are built from literals, greedy and lazy
  repetitions of a character class, an optional group, capture groups and the end
  anchor. \<open>runs\<close> is the backtracking matcher: it lists, in the order in which a
  backtracking engine tries them, the ways a pattern matches a prefix of the input; a
  state is the input still to read and the captures made so far. \<open>exec\<close> takes the
  first way at the leftmost start position, as \<open>RegExp.prototype.exec\<close> does.
\<close>

datatype rx =
    Lit string
  | PlusGreedy "char \<Rightarrow> bool"
  | StarGreedy "char \<Rightarrow> bool"
  | StarLazy "char \<Rightarrow> bool"
  | Opt rx
  | Grp nat rx
  | Seq rx rx
  | Eoi

type_synonym captures = "(nat \<times> string) list"

fun runs :: "rx \<Rightarrow> string \<times> captures \<Rightarrow> (string \<times> captures) list" where
  "runs (Lit l) (s, c) = (if prefix l s then [(drop (length l) s, c)] else [])"
| "runs (PlusGreedy p) (s, c) =
     map (\<lambda>k. (drop k s, c)) (rev [1 ..< Suc (length (takeWhile p s))])"
| "runs (StarGreedy p) (s, c) =
     map (\<lambda>k. (drop k s, c)) (rev [0 ..< Suc (length (takeWhile p s))])"
| "runs (StarLazy p) (s, c) =
     map (\<lambda>k. (drop k s, c)) [0 ..< Suc (length (takeWhile p s))]"
| "runs (Opt r) (s, c) = runs r (s, c) @ [(s, c)]"
| "runs (Grp i r) (s, c) =
     map (\<lambda>(s', c'). (s', AList.update i (take (length s - length s') s) c')) (runs r (s, c))"
| "runs (Seq r1 r2) (s, c) = concat (map (runs r2) (runs r1 (s, c)))"
| "runs Eoi (s, c) = (if s = [] then [(s, c)] else [])"

text \<open>The start index of the match and its captures.\<close>

fun execFrom :: "rx \<Rightarrow> nat \<Rightarrow> string \<Rightarrow> (nat \<times> captures) option" where
  "execFrom r i s =
     (case runs r (s, []) of
        m # _ \<Rightarrow> Some (i, snd m)
      | [] \<Rightarrow> (case s of [] \<Rightarrow> None | _ # s' \<Rightarrow> execFrom r (Suc i) s'))"

definition exec :: "rx \<Rightarrow> string \<Rightarrow> (nat \<times> captures) option" where
  "exec r s = execFrom r 0 s"

definition test :: "rx \<Rightarrow> string \<Rightarrow> bool" where
  "test r s = (exec r s \<noteq> None)"

text \<open>\<open>/: ([\d.-]+)[\s%a-zA-Z]*?(\| FLAG)?$/\<close>\<close>

definition isNumChar :: "char \<Rightarrow> bool" where
  "isNumChar c = (isDigit c \<or> c = CHR ''.'' \<or> c = CHR ''-'')"

definition isNoiseChar :: "char \<Rightarrow> bool" where
  "isNoiseChar c = (isSpace c \<or> c = CHR ''%'' \<or> isLetter c)"

definition valueRegex :: rx where
  "valueRegex =
     Seq (Lit '': '')
       (Seq (Grp 1 (PlusGreedy isNumChar))
         (Seq (StarLazy isNoiseChar)
           (Seq (Opt (Grp 2 (Lit ''| FLAG''))) Eoi)))"

text \<open>\<open>/\s*\([^)]+\)$/\<close>\<close>

definition parenRegex :: rx where
  "parenRegex =
     Seq (StarGreedy isSpace)
       (Seq (Lit ''('')
         (Seq (PlusGreedy (\<lambda>c. c \<noteq> CHR '')''))
           (Seq (Lit '')'') Eoi)))"

text \<open>\<open>s.replace(r, '')\<close> for a pattern without the global flag that ends in
  \<open>$\<close>: the match, if any, runs from its start to the end of \<open>s\<close>.\<close>

definition removeMatch :: "rx \<Rightarrow> string \<Rightarrow> string" where
  "removeMatch r s = (case exec r s of None \<Rightarrow> s | Some (i, _) \<Rightarrow> take i s)"

section \<open>\<open>parseFloat\<close>\<close>

text \<open>
  \<open>parseFloat\<close> reads the longest prefix that is a decimal literal. It is only applied
  to group 1 of \<open>valueRegex\<close>, a string of digits, dots and minus signs; on such a string
  the literal is an optional minus sign followed by digits with an optional fraction,
  or by a dot and digits, and the result is \<open>NaN\<close> when there is no such prefix.
\<close>

definition digitValue :: "char \<Rightarrow> nat" where
  "digitValue c = of_char c - 48"

definition digitsValue :: "string \<Rightarrow> real" where
  "digitsValue ds = foldl (\<lambda>a d. 10 * a + real (digitValue d)) 0 ds"

definition fractionValue :: "string \<Rightarrow> real" where
  "fractionValue ds = foldr (\<lambda>d a. (real (digitValue d) + a) / 10) ds 0"

definition parseFloat :: "string \<Rightarrow> jsnum" where
  "parseFloat s =
     (let (negative, s1) = (case s of c # cs \<Rightarrow> if c = CHR ''-'' then (True, cs) else (False, s)
                                     | [] \<Rightarrow> (False, s));
          intPart = takeWhile isDigit s1;
          fracPart = (case dropWhile isDigit s1 of
                        c # cs \<Rightarrow> if c = CHR ''.'' then takeWhile isDigit cs else []
                      | [] \<Rightarrow> [])
      in if intPart = [] \<and> fracPart = [] then NaN
         else Num ((if negative then - 1 else 1) * (digitsValue intPart + fractionValue fracPart)))"

section \<open>Objects\<close>

text \<open>
  An object used as a dictionary is modelled by the table of its own properties, an
  association list in insertion order. An ordinary object also inherits from
  \<open>Object.prototype\<close>: the operator \<open>in\<close> and a property read see the inherited
  members, and an assignment to the inherited accessor \<open>__proto__\<close> calls its setter.
  \<open>objectPrototypeNames\<close> are the property names of \<open>Object.prototype\<close> in a fresh
  realm (ECMAScript, sections "Properties of the Object Prototype Object" and B.2.2).
\<close>

definition objectPrototypeNames :: "string list" where
  "objectPrototypeNames =
     [''constructor'', ''__defineGetter__'', ''__defineSetter__'', ''hasOwnProperty'',
      ''__lookupGetter__'', ''__lookupSetter__'', ''isPrototypeOf'', ''propertyIsEnumerable'',
      ''toString'', ''valueOf'', ''__proto__'', ''toLocaleString'']"

datatype jserror = TypeError

text \<open>One measurement: the object \<open>{'value': ..., 'isFlagged': ...}\<close>.\<close>

record reading =
  rvalue :: jsval
  isFlagged :: bool

text \<open>
  The object of one category: its own properties and, when an assignment to
  \<open>__proto__\<close> has replaced it, the reading that is now its prototype.
\<close>

record catobj =
  props :: "(string \<times> reading) list"
  protoLink :: "reading option"

text \<open>
  Objects of the realm that the parser can reach through an inherited property of its
  result: \<open>Object.prototype\<close> itself (the value of the inherited \<open>__proto__\<close>), the
  built-in function that is the value of an inherited name, and a reading that an
  earlier assignment has stored in \<open>Object.prototype\<close> under a name. The realm is
  represented by the list of the assignments made to such objects, oldest first.
\<close>

datatype rtarget = ObjectPrototype | BuiltinFunction string | PollutedObject string

type_synonym realm = "(rtarget \<times> string \<times> reading) list"

definition pollutedNames :: "realm \<Rightarrow> string list" where
  "pollutedNames rlm = map (\<lambda>(t, k, r). k) (filter (\<lambda>(t, k, r). t = ObjectPrototype) rlm)"

definition inheritedName :: "realm \<Rightarrow> string \<Rightarrow> bool" where
  "inheritedName rlm c = (c \<in> set objectPrototypeNames \<or> c \<in> set (pollutedNames rlm))"

text \<open>The value of the inherited property \<open>c\<close> of an ordinary object.\<close>

definition inheritedTarget :: "realm \<Rightarrow> string \<Rightarrow> rtarget" where
  "inheritedTarget rlm c =
     (if c = ''__proto__'' then ObjectPrototype
      else if c \<in> set (pollutedNames rlm) then PollutedObject c
      else BuiltinFunction c)"

definition protoReplaced :: "realm \<Rightarrow> string \<Rightarrow> bool" where
  "protoReplaced rlm f = ((BuiltinFunction f, ''__proto__'') \<in> set (map (\<lambda>(t, k, r). (t, k)) rlm))"

text \<open>
  The assignment \<open>target[k] = r\<close> on an object of the realm, in non-strict code (the
  parser has no \<open>'use strict'\<close>, so an assignment to a read-only property is dropped
  silently).
  \<^item> \<open>Object.prototype\<close> has an immutable prototype: the setter of \<open>__proto__\<close> throws a
    \<open>TypeError\<close>. Its other properties are writable.
  \<^item> A built-in function has the read-only own properties \<open>length\<close> and \<open>name\<close> (and
    \<open>Object\<close> has \<open>prototype\<close>); it inherits from \<open>Function.prototype\<close> the accessors
    \<open>caller\<close> and \<open>arguments\<close>, whose setter throws a \<open>TypeError\<close>, as long as its
    prototype has not been replaced.
  \<^item> A reading has writable properties only.
\<close>

fun realmAssign :: "realm \<Rightarrow> rtarget \<Rightarrow> string \<Rightarrow> reading \<Rightarrow> jserror + realm" where
  "realmAssign rlm ObjectPrototype k r =
     (if k = ''__proto__'' then Inl TypeError else Inr (rlm @ [(ObjectPrototype, k, r)]))"
| "realmAssign rlm (BuiltinFunction f) k r =
     (if k = ''__proto__'' then Inr (rlm @ [(BuiltinFunction f, k, r)])
      else if k = ''length'' \<or> k = ''name'' \<or> (f = ''constructor'' \<and> k = ''prototype'') then Inr rlm
      else if (k = ''caller'' \<or> k = ''arguments'') \<and> \<not> protoReplaced rlm f then Inl TypeError
      else Inr (rlm @ [(BuiltinFunction f, k, r)]))"
| "realmAssign rlm (PollutedObject c) k r = Inr (rlm @ [(PollutedObject c, k, r)])"

text \<open>The assignment \<open>obj[k] = r\<close> on the object of a category.\<close>

definition putOwn :: "catobj \<Rightarrow> string \<Rightarrow> reading \<Rightarrow> catobj" where
  "putOwn obj k r =
     (if k = ''__proto__'' then obj\<lparr>protoLink := Some r\<rparr>
      else obj\<lparr>props := AList.update k r (props obj)\<rparr>)"

section \<open>The parser: \<open>parseVngText\<close>\<close>

record pstate =
  dataMap :: "(string \<times> catobj) list"
  currentCategory :: string
  realmLog :: realm

text \<open>\<open>currentCategory in dataMap\<close>\<close>

definition hasProperty :: "pstate \<Rightarrow> string \<Rightarrow> bool" where
  "hasProperty st c = (map_of (dataMap st) c \<noteq> None \<or> inheritedName (realmLog st) c)"

text \<open>Lines 59 to 68 of the parser: make sure the category exists, then store the
  reading. When the category is an inherited name no own property is created, and the
  reading is assigned to the inherited object.\<close>

definition storeMetric :: "pstate \<Rightarrow> string \<Rightarrow> reading \<Rightarrow> jserror + pstate" where
  "storeMetric st metricName r =
     (let c = currentCategory st;
          st1 = (if \<not> hasProperty st c
                 then st\<lparr>dataMap := dataMap st @ [(c, \<lparr>props = [], protoLink = None\<rparr>)]\<rparr>
                 else st)
      in case map_of (dataMap st1) c of
           Some obj \<Rightarrow> Inr (st1\<lparr>dataMap := AList.update c (putOwn obj metricName r) (dataMap st1)\<rparr>)
         | None \<Rightarrow>
             (case realmAssign (realmLog st1) (inheritedTarget (realmLog st1) c) metricName r of
                Inl e \<Rightarrow> Inl e
              | Inr rlm \<Rightarrow> Inr (st1\<lparr>realmLog := rlm\<rparr>)))"

text \<open>Lines 55 to 57: the text before the colon at \<open>colonIndex\<close>, trimmed, without a
  trailing parenthesized suffix, trimmed again.\<close>

definition metricNameOf :: "string \<Rightarrow> nat \<Rightarrow> string" where
  "metricNameOf trimmedLine colonIndex =
     trim (removeMatch parenRegex (trim (take colonIndex trimmedLine)))"

text \<open>Lines 73 to 77: \<open>slice(0, -1)\<close> drops the colon, \<open>slice(0, -3)\<close> the suffix
  \<open> //\<close>.\<close>

definition headerCategory :: "string \<Rightarrow> string" where
  "headerCategory trimmedLine =
     (let c = trim (butlast trimmedLine)
      in if endsWith c '' //'' then trim (take (length c - 3) c) else c)"

text \<open>\<open>match && match[1]\<close>: groups 1 and 2 of the match of \<open>valueRegex\<close>, when there is
  a match and its group 1 is not the empty string.\<close>

definition valueMatch :: "string \<Rightarrow> (string \<times> string option) option" where
  "valueMatch trimmedLine =
     (case exec valueRegex trimmedLine of
        None \<Rightarrow> None
      | Some (i, caps) \<Rightarrow>
          (case map_of caps 1 of
             None \<Rightarrow> None
           | Some tok \<Rightarrow> if tok = [] then None else Some (tok, map_of caps 2)))"

text \<open>The body of the loop over the lines (lines 28 to 79).\<close>

definition processLine :: "pstate \<Rightarrow> string \<Rightarrow> jserror + pstate" where
  "processLine st line =
     (let trimmedLine = trim line in
      if trimmedLine = [] then Inr st
      else
        (case valueMatch trimmedLine of
           Some (tok, flagGroup) \<Rightarrow>
             (let v = parseFloat tok in
              if isNaN (Number v) then Inr st
              else
                (case indexOf trimmedLine CHR '':'' of
                   None \<Rightarrow> Inr st
                 | Some colonIndex \<Rightarrow>
                     storeMetric st (metricNameOf trimmedLine colonIndex)
                       \<lparr>rvalue = Number v, isFlagged = (flagGroup \<noteq> None)\<rparr>))
         | None \<Rightarrow>
             if endsWith trimmedLine '':'' \<and> \<not> test valueRegex trimmedLine then
               (if \<not> includesStr trimmedLine ''Summary of Flagged Findings''
                then Inr (st\<lparr>currentCategory := headerCategory trimmedLine\<rparr>)
                else Inr st)
             else Inr st))"

fun parseLines :: "pstate \<Rightarrow> string list \<Rightarrow> jserror + pstate" where
  "parseLines st [] = Inr st"
| "parseLines st (line # rest) =
     (case processLine st line of Inl e \<Rightarrow> Inl e | Inr st' \<Rightarrow> parseLines st' rest)"

text \<open>
  The argument of \<open>parseVngText\<close> is any value; only whether it is a string matters.
  The result is the returned object together with the assignments made to objects of
  the realm, or the exception thrown. \<open>parseVngTextIn\<close> starts from a given realm,
  \<open>parseVngText\<close> from a fresh one.
\<close>

datatype textArg = NotAString | Str string

definition parseVngTextIn :: "realm \<Rightarrow> textArg \<Rightarrow> jserror + (string \<times> catobj) list \<times> realm" where
  "parseVngTextIn rlm arg =
     (case arg of
        NotAString \<Rightarrow> Inr ([], rlm)
      | Str s \<Rightarrow>
          if s = [] then Inr ([], rlm)
          else
            (case parseLines \<lparr>dataMap = [], currentCategory = ''General'', realmLog = rlm\<rparr>
                    (splitStr s ''\<newline>'') of
               Inl e \<Rightarrow> Inl e
             | Inr st \<Rightarrow> Inr (dataMap st, realmLog st)))"

definition parseVngText :: "textArg \<Rightarrow> jserror + (string \<times> catobj) list \<times> realm" where
  "parseVngText arg = parseVngTextIn [] arg"

section \<open>Statistics: \<open>calculateStdDev\<close> and \<open>calculatePercentChange\<close>\<close>

text \<open>An argument that is tested with \<open>Array.isArray\<close>. The elements of an array of
  numbers are numbers, \<open>null\<close> or \<open>undefined\<close>.\<close>

datatype 'a arrayArg = NotAnArray | Array "'a list"

definition calculateStdDev :: "jsval arrayArg \<Rightarrow> jsnum" where
  "calculateStdDev arg =
     (case arg of
        NotAnArray \<Rightarrow> Num 0
      | Array vs \<Rightarrow>
          if length vs < 2 then Num 0
          else
            (let validValues = filter (\<lambda>v. v \<noteq> Null \<and> v \<noteq> Undefined \<and> \<not> isNaN v) vs in
             if length validValues < 2 then Num 0
             else
               (let mean = jsdiv (foldl (\<lambda>sum v. jsadd sum (toNumber v)) (Num 0) validValues)
                                 (Num (real (length validValues)));
                    variance =
                      jsdiv (foldl (\<lambda>sum v. jsadd sum (jssquare (jssub (toNumber v) mean)))
                               (Num 0) validValues)
                            (Num (real (length validValues - 1)))
                in jssqrt variance)))"

definition calculatePercentChange :: "jsval \<Rightarrow> jsval \<Rightarrow> jsval" where
  "calculatePercentChange baseline newValue =
     (if baseline = Null \<or> baseline = Undefined \<or> newValue = Null \<or> newValue = Undefined
      then Null
      else if baseline = Number (Num 0)
      then (if newValue = Number (Num 0) then Number (Num 0) else Null)
      else Number (jsmul (jsdiv (jssub (toNumber newValue) (toNumber baseline))
                                (toNumber baseline))
                         (Num 100)))"

section \<open>The analyzer: \<open>runAnalysis\<close>\<close>

text \<open>
  A file is \<open>{'name': ..., 'data': {category: {metric: {value, isFlagged}}}}\<close>, the
  dictionaries being ordinary objects (their prototype is \<open>Object.prototype\<close>) given by
  their own properties, in the order in which \<open>for ... in\<close> lists them. A table is read
  as the map \<open>map_of\<close> of it.
\<close>

record fileData =
  name :: string
  data :: "(string \<times> (string \<times> reading) list) list"

text \<open>\<open>Set.prototype.add\<close> on a set kept in insertion order.\<close>

definition setAdd :: "string list \<Rightarrow> string \<Rightarrow> string list" where
  "setAdd xs x = (if x \<in> set xs then xs else xs @ [x])"

text \<open>The keys \<open>`${category}::${metric}`\<close> of one file, as the two nested
  \<open>for ... in\<close> loops add them to a set.\<close>

definition pairKeys :: "(string \<times> (string \<times> reading) list) list \<Rightarrow> string list" where
  "pairKeys d =
     foldl setAdd []
       (concat (map (\<lambda>category.
                  case map_of d category of
                    None \<Rightarrow> []
                  | Some metrics \<Rightarrow> map (\<lambda>metric. category @ ''::'' @ metric) (map fst metrics))
                (map fst d)))"

text \<open>Lines 37 to 59 of the analyzer: keep the pairs that every later file has too.\<close>

fun intersectPairs :: "string list \<Rightarrow> fileData list \<Rightarrow> string list" where
  "intersectPairs commonPairs [] = commonPairs"
| "intersectPairs commonPairs (f # fs) =
     intersectPairs (filter (\<lambda>pair. pair \<in> set (pairKeys (data f))) commonPairs) fs"

text \<open>\<open>const [category, metric] = pair.split('::')\<close>; a missing element is
  \<open>undefined\<close>, which as a property key is the string \<open>undefined\<close>.\<close>

definition decodePair :: "string \<Rightarrow> string \<times> string" where
  "decodePair pair =
     (case splitStr pair ''::'' of
        category # metric # _ \<Rightarrow> (category, metric)
      | [category] \<Rightarrow> (category, ''undefined'')
      | [] \<Rightarrow> (''undefined'', ''undefined''))"

subsection \<open>The series and the objects of the realm\<close>

text \<open>
  The loop of lines 69 to 79 reads \<open>fileData['data'][category][metric]\<close> and line 101
  tests \<open>category in results\<close> without asking whether the name is an own property. A
  name that is not an own property is looked up along the prototype chain, so
  \<open>metricData\<close> can be an object of the realm instead of a reading, and the assignment
  of line 106 can land in an object of the realm instead of the result.

  An element of \<open>values\<close> is what \<open>metricData['value']\<close> gave: the value of a reading
  or, read from an object of the realm, \<open>undefined\<close> or a series object that the
  analyzer itself has assigned to such an object earlier in the run (\<open>Obj k\<close> is the
  \<open>k\<close>-th of them). An element of \<open>flags\<close> likewise.
\<close>

datatype aval = Prim jsval | Obj nat

datatype aflag = Flag bool | FlagUndefined | FlagObj nat

record series =
  svalues :: "aval list"
  sflags :: "aflag list"
  delta :: jsval
  stdDev :: jsval
  percentChange :: jsval

text \<open>
  The objects of the realm that the analyzer can reach: \<open>Object.prototype\<close>,
  \<open>Function.prototype\<close>, the built-in function that is the initial value of the
  property \<open>f\<close> of \<open>Object.prototype\<close> (\<open>BuiltinFn ''constructor''\<close> is \<open>Object\<close>), and the
  series objects that the analyzer has assigned to one of these. The state of the
  realm is what the assignments of the run have changed: the own properties they have
  created or overwritten, with the number of the series object stored there; the
  objects whose prototype they have replaced, with the number of the series object
  that is the prototype now; and these series objects. The realm is taken to be fresh
  when the analyzer starts.
\<close>

datatype robject = ObjectProto | FunctionProto | BuiltinFn string | SeriesObj nat

record arealm =
  assigned :: "((robject \<times> string) \<times> nat) list"
  newProto :: "(robject \<times> nat) list"
  seriesObjs :: "series list"

definition freshRealm :: arealm where
  "freshRealm = \<lparr>assigned = [], newProto = [], seriesObjs = []\<rparr>"

definition prototypeOf :: "arealm \<Rightarrow> robject \<Rightarrow> robject option" where
  "prototypeOf rs b =
     (case map_of (newProto rs) b of
        Some j \<Rightarrow> Some (SeriesObj j)
      | None \<Rightarrow>
          (case b of
             ObjectProto \<Rightarrow> None
           | FunctionProto \<Rightarrow> Some ObjectProto
           | BuiltinFn f \<Rightarrow> Some FunctionProto
           | SeriesObj k \<Rightarrow> Some ObjectProto))"

text \<open>The prototype chain of an object, the object first. A chain has no cycle (a
  new prototype is always a fresh series object), so it has no more objects than the
  realm has.\<close>

fun chainFrom :: "nat \<Rightarrow> arealm \<Rightarrow> robject \<Rightarrow> robject list" where
  "chainFrom 0 rs b = []"
| "chainFrom (Suc n) rs b =
     b # (case prototypeOf rs b of None \<Rightarrow> [] | Some p \<Rightarrow> chainFrom n rs p)"

definition protoChain :: "arealm \<Rightarrow> robject \<Rightarrow> robject list" where
  "protoChain rs b = chainFrom (length (seriesObjs rs) + 3) rs b"

text \<open>
  An own property of an object of the realm, as far as the analyzer depends on it. Of
  the value of a data property the analyzer uses whether it is truthy and, if it is,
  its properties \<open>value\<close> and \<open>isFlagged\<close>: \<open>DataProperty None w\<close> is a falsy value,
  \<open>DataProperty (Some b) w\<close> a truthy one whose properties are looked up from the object
  \<open>b\<close> on (the value itself if it is an object of the realm; \<open>Function.prototype\<close> for
  any other built-in function; \<open>Object.prototype\<close> for a number, a string or an array,
  whose own prototypes have neither property). \<open>w\<close> says whether the property is
  writable. \<open>ProtoAccessor\<close> is the accessor \<open>__proto__\<close> of \<open>Object.prototype\<close>,
  \<open>ThrowingAccessor\<close> an accessor whose getter and setter throw a \<open>TypeError\<close>.
\<close>

datatype property = Absent | DataProperty "robject option" bool | ProtoAccessor | ThrowingAccessor

definition truthy :: "jsval \<Rightarrow> bool" where
  "truthy v = (case v of Number (Num x) \<Rightarrow> x \<noteq> 0 | _ \<Rightarrow> False)"

text \<open>The property \<open>length\<close> of the built-in functions of \<open>Object.prototype\<close>, the
  methods of \<open>Function.prototype\<close> and the function-valued properties of \<open>Object\<close>
  (ECMAScript 2024).\<close>

definition functionLength :: "string \<Rightarrow> nat" where
  "functionLength f =
     (if f \<in> set [''toString'', ''valueOf'', ''toLocaleString''] then 0
      else if f \<in> set [''__defineGetter__'', ''__defineSetter__''] then 2
      else 1)"

definition functionPrototypeMethods :: "string list" where
  "functionPrototypeMethods = [''constructor'', ''apply'', ''bind'', ''call'', ''toString'']"

definition objectStaticNames :: "string list" where
  "objectStaticNames =
     [''assign'', ''create'', ''defineProperties'', ''defineProperty'', ''entries'', ''freeze'',
      ''fromEntries'', ''getOwnPropertyDescriptor'', ''getOwnPropertyDescriptors'',
      ''getOwnPropertyNames'', ''getOwnPropertySymbols'', ''getPrototypeOf'', ''groupBy'',
      ''hasOwn'', ''is'', ''isExtensible'', ''isFrozen'', ''isSealed'', ''keys'',
      ''preventExtensions'', ''seal'', ''setPrototypeOf'', ''values'']"

text \<open>
  The own properties that the objects have before any assignment of the run.
  \<^item> \<open>Object.prototype\<close>: the accessor \<open>__proto__\<close> and its built-in functions, writable.
  \<^item> \<open>Function.prototype\<close>: the accessors \<open>caller\<close> and \<open>arguments\<close>, which throw; its
    methods; \<open>length\<close> (0) and \<open>name\<close> (the empty string), read-only.
  \<^item> A built-in function: \<open>length\<close> and \<open>name\<close> (not empty), read-only; \<open>Object\<close> has
    also \<open>prototype\<close> (which is \<open>Object.prototype\<close>), read-only, and its functions.
  \<^item> A series object: the arrays \<open>values\<close> and \<open>flags\<close>, and \<open>delta\<close>, \<open>stdDev\<close> and
    \<open>percentChange\<close>, a number or \<open>null\<close>.
\<close>

definition initialProperty :: "arealm \<Rightarrow> robject \<Rightarrow> string \<Rightarrow> property" where
  "initialProperty rs b k =
     (case b of
        ObjectProto \<Rightarrow>
          if k = ''__proto__'' then ProtoAccessor
          else if k \<in> set objectPrototypeNames then DataProperty (Some (BuiltinFn k)) True
          else Absent
      | FunctionProto \<Rightarrow>
          if k = ''caller'' \<or> k = ''arguments'' then ThrowingAccessor
          else if k \<in> set functionPrototypeMethods then DataProperty (Some FunctionProto) True
          else if k = ''length'' \<or> k = ''name'' then DataProperty None False
          else Absent
      | BuiltinFn f \<Rightarrow>
          if k = ''length''
          then DataProperty (if functionLength f = 0 then None else Some ObjectProto) False
          else if k = ''name'' then DataProperty (Some ObjectProto) False
          else if f = ''constructor'' \<and> k = ''prototype'' then DataProperty (Some ObjectProto) False
          else if f = ''constructor'' \<and> k \<in> set objectStaticNames
          then DataProperty (Some FunctionProto) True
          else Absent
      | SeriesObj j \<Rightarrow>
          if j < length (seriesObjs rs) then
            (if k = ''values'' \<or> k = ''flags'' then DataProperty (Some ObjectProto) True
             else if k = ''delta''
             then DataProperty (if truthy (delta (seriesObjs rs ! j)) then Some ObjectProto else None) True
             else if k = ''stdDev''
             then DataProperty (if truthy (stdDev (seriesObjs rs ! j)) then Some ObjectProto else None) True
             else if k = ''percentChange''
             then DataProperty (if truthy (percentChange (seriesObjs rs ! j)) then Some ObjectProto else None) True
             else Absent)
          else Absent)"

text \<open>An assignment of the run stores a series object, which is truthy, in a writable
  property.\<close>

definition ownProperty :: "arealm \<Rightarrow> robject \<Rightarrow> string \<Rightarrow> property" where
  "ownProperty rs b k =
     (case map_of (assigned rs) (b, k) of
        Some j \<Rightarrow> DataProperty (Some (SeriesObj j)) True
      | None \<Rightarrow> initialProperty rs b k)"

fun firstProperty :: "property list \<Rightarrow> property" where
  "firstProperty [] = Absent"
| "firstProperty (p # ps) = (if p = Absent then firstProperty ps else p)"

text \<open>The property \<open>k\<close> that a lookup starting at \<open>b\<close> finds on the prototype chain.\<close>

definition findProperty :: "arealm \<Rightarrow> robject \<Rightarrow> string \<Rightarrow> property" where
  "findProperty rs b k = firstProperty (map (\<lambda>ob. ownProperty rs ob k) (protoChain rs b))"

text \<open>
  \<open>b[k]\<close> for an object \<open>b\<close> of the realm: \<open>None\<close> for a falsy value, such as
  \<open>undefined\<close> for a name that is not found. The getter of \<open>__proto__\<close> returns the
  prototype of \<open>b\<close>, which is \<open>null\<close> for \<open>Object.prototype\<close>.
\<close>

definition getProperty :: "arealm \<Rightarrow> robject \<Rightarrow> string \<Rightarrow> jserror + robject option" where
  "getProperty rs b k =
     (case findProperty rs b k of
        Absent \<Rightarrow> Inr None
      | DataProperty v w \<Rightarrow> Inr v
      | ProtoAccessor \<Rightarrow> Inr (prototypeOf rs b)
      | ThrowingAccessor \<Rightarrow> Inl TypeError)"

text \<open>\<open>k in obj\<close> and \<open>obj[k]\<close> for an ordinary object \<open>obj\<close> that has no own property
  \<open>k\<close>: the lookup goes on in \<open>Object.prototype\<close>, and the getter of \<open>__proto__\<close> returns
  the prototype of \<open>obj\<close>, \<open>Object.prototype\<close>.\<close>

definition inheritedIn :: "arealm \<Rightarrow> string \<Rightarrow> bool" where
  "inheritedIn rs k = (ownProperty rs ObjectProto k \<noteq> Absent)"

definition inheritedProperty :: "arealm \<Rightarrow> string \<Rightarrow> robject option" where
  "inheritedProperty rs k =
     (case ownProperty rs ObjectProto k of
        DataProperty v w \<Rightarrow> v
      | ProtoAccessor \<Rightarrow> Some ObjectProto
      | _ \<Rightarrow> None)"

text \<open>
  \<open>metricData['value']\<close> and \<open>metricData['isFlagged']\<close> where \<open>metricData\<close> is not a
  reading. No built-in object and no series object has a property of these names
  before the run, so the value is a series object that the run has assigned, or
  \<open>undefined\<close>.
\<close>

definition valueOfData :: "arealm \<Rightarrow> robject \<Rightarrow> aval" where
  "valueOfData rs b =
     (case getProperty rs b ''value'' of Inr (Some (SeriesObj j)) \<Rightarrow> Obj j | _ \<Rightarrow> Prim Undefined)"

definition flagOfData :: "arealm \<Rightarrow> robject \<Rightarrow> aflag" where
  "flagOfData rs b =
     (case getProperty rs b ''isFlagged'' of Inr (Some (SeriesObj j)) \<Rightarrow> FlagObj j | _ \<Rightarrow> FlagUndefined)"

subsection \<open>The loop over the pairs\<close>

text \<open>
  Lines 71 to 74 for one file: the test
  \<open>fileData['data'][category] && fileData['data'][category][metric]\<close> and, when it is
  truthy, the two elements pushed. \<open>None\<close> is a falsy test. A reading is an object and
  so truthy. Reading \<open>caller\<close> or \<open>arguments\<close> of a built-in function throws.
\<close>

definition lookupMetric ::
  "arealm \<Rightarrow> (string \<times> (string \<times> reading) list) list \<Rightarrow> string \<Rightarrow> string
     \<Rightarrow> jserror + (aval \<times> aflag) option" where
  "lookupMetric rs d category metric =
     (case map_of d category of
        Some metrics \<Rightarrow>
          (case map_of metrics metric of
             Some r \<Rightarrow> Inr (Some (Prim (rvalue r), Flag (isFlagged r)))
           | None \<Rightarrow>
               (case inheritedProperty rs metric of
                  None \<Rightarrow> Inr None
                | Some b \<Rightarrow> Inr (Some (valueOfData rs b, flagOfData rs b))))
      | None \<Rightarrow>
          (case inheritedProperty rs category of
             None \<Rightarrow> Inr None
           | Some c \<Rightarrow>
               (case getProperty rs c metric of
                  Inl e \<Rightarrow> Inl e
                | Inr None \<Rightarrow> Inr None
                | Inr (Some b) \<Rightarrow> Inr (Some (valueOfData rs b, flagOfData rs b)))))"

text \<open>Lines 66 to 79: the elements pushed for the files that pass the test, in file
  order.\<close>

fun collect :: "arealm \<Rightarrow> fileData list \<Rightarrow> string \<Rightarrow> string \<Rightarrow> jserror + (aval \<times> aflag) list" where
  "collect rs [] category metric = Inr []"
| "collect rs (f # fs) category metric =
     (case lookupMetric rs (data f) category metric of
        Inl e \<Rightarrow> Inl e
      | Inr None \<Rightarrow> collect rs fs category metric
      | Inr (Some p) \<Rightarrow>
          (case collect rs fs category metric of
             Inl e \<Rightarrow> Inl e
           | Inr ps \<Rightarrow> Inr (p # ps)))"

text \<open>
  The statistics use a value as a number (\<open>values[1] - values[0]\<close>, \<open>isNaN(v)\<close>). For a
  series object the conversion calls its \<open>valueOf\<close>, which returns the object, and then
  its \<open>toString\<close>: the result is \<open>NaN\<close> if \<open>toString\<close> is still the built-in function, and
  a \<open>TypeError\<close> if an assignment of the run has put a series object in its place.
\<close>

definition convertible :: "arealm \<Rightarrow> aval \<Rightarrow> bool" where
  "convertible rs v =
     (case v of
        Prim x \<Rightarrow> True
      | Obj j \<Rightarrow> getProperty rs (SeriesObj j) ''toString'' = Inr (Some (BuiltinFn ''toString'')))"

text \<open>A value as the statistics see it when the conversion does not throw: an object
  is not \<open>null\<close>, not \<open>undefined\<close> and not \<open>0\<close>, and it is \<open>NaN\<close> as a number.\<close>

definition operand :: "aval \<Rightarrow> jsval" where
  "operand v = (case v of Prim x \<Rightarrow> x | Obj j \<Rightarrow> Number NaN)"

text \<open>Lines 86 to 112, for \<open>n\<close> files; \<open>vs ! 0\<close> and \<open>vs ! 1\<close> are read only when \<open>n = 2\<close>,
  and the series is built only when \<open>vs\<close> has \<open>n\<close> elements.\<close>

definition makeSeries :: "nat \<Rightarrow> aval list \<Rightarrow> aflag list \<Rightarrow> series" where
  "makeSeries n vs fs =
     \<lparr>svalues = vs, sflags = fs,
      delta = (if n = 2 then Number (jssub (toNumber (operand (vs ! 1))) (toNumber (operand (vs ! 0))))
               else Null),
      stdDev = (if n \<ge> 2 then Number (calculateStdDev (Array (map operand vs))) else Null),
      percentChange = (if n = 2 then calculatePercentChange (operand (vs ! 0)) (operand (vs ! 1))
                       else Null)\<rparr>"

type_synonym results = "(string \<times> (string \<times> series) list) list"

text \<open>
  \<open>results[category][metric] = ...\<close> where \<open>results[category]\<close> is an own property of
  the result, created first if \<open>category in results\<close> was false. The assignment to
  \<open>__proto__\<close> calls the inherited setter: it replaces the prototype of
  \<open>results[category]\<close> and creates no own property.
\<close>

definition storeSeries :: "results \<Rightarrow> string \<Rightarrow> string \<Rightarrow> series \<Rightarrow> results" where
  "storeSeries res category metric s =
     (let metrics = (case map_of res category of None \<Rightarrow> [] | Some ms \<Rightarrow> ms)
      in AList.update category
           (if metric = ''__proto__'' then metrics else AList.update metric s metrics) res)"

text \<open>
  The assignment \<open>b[k] = s\<close> of a new series object to an object of the realm, in
  non-strict code (the analyzer has no \<open>'use strict'\<close>, so an assignment to a read-only
  property is dropped silently). The property found on the prototype chain decides: a
  throwing accessor throws; the setter of \<open>__proto__\<close> replaces the prototype of \<open>b\<close>,
  and throws for \<open>Object.prototype\<close>, whose prototype is immutable; a read-only
  property stops the assignment; otherwise \<open>b\<close> gets or keeps the own property \<open>k\<close>,
  with the new value.
\<close>

definition assign :: "arealm \<Rightarrow> robject \<Rightarrow> string \<Rightarrow> series \<Rightarrow> jserror + arealm" where
  "assign rs b k s =
     (let j = length (seriesObjs rs);
          stored = rs\<lparr>assigned := AList.update (b, k) j (assigned rs),
                      seriesObjs := seriesObjs rs @ [s]\<rparr>
      in case findProperty rs b k of
           Absent \<Rightarrow> Inr stored
         | DataProperty v w \<Rightarrow> if w then Inr stored else Inr rs
         | ProtoAccessor \<Rightarrow>
             if b = ObjectProto then Inl TypeError
             else Inr (rs\<lparr>newProto := AList.update b j (newProto rs),
                          seriesObjs := seriesObjs rs @ [s]\<rparr>)
         | ThrowingAccessor \<Rightarrow> Inl TypeError)"

text \<open>
  One round of the loop of lines 62 to 113: the result and the realm after it, or the
  exception.
  \<^item> The array pattern of line 63 takes two elements from the iterator of the array and
    then closes it, which looks up the method \<open>return\<close> of the iterator. No iterator
    prototype has one, so the lookup ends in \<open>Object.prototype\<close>: if the run has
    assigned a series object there under this name, the pattern throws a \<open>TypeError\<close>,
    as a series object is not callable.
  \<^item> With two files or more every value is converted to a number.
  \<^item> If \<open>category\<close> is an own property of the result, or not a property at all, the
    series is stored in the result; if it is an inherited property, the series is
    assigned to the inherited object. (An inherited property has an object as its
    value; an assignment to a property of \<open>undefined\<close> would throw.)
\<close>

definition analysePair ::
  "fileData list \<Rightarrow> results \<times> arealm \<Rightarrow> string \<Rightarrow> jserror + results \<times> arealm" where
  "analysePair files st pair =
     (let (category, metric) = decodePair pair; (res, rs) = st in
      case inheritedProperty rs ''return'' of
        Some b \<Rightarrow> Inl TypeError
      | None \<Rightarrow>
          (case collect rs files category metric of
             Inl e \<Rightarrow> Inl e
           | Inr ps \<Rightarrow>
               if length ps \<noteq> length files then Inr (res, rs)
               else if 2 \<le> length files \<and> \<not> list_all (convertible rs) (map fst ps)
               then Inl TypeError
               else
                 (let s = makeSeries (length files) (map fst ps) (map snd ps) in
                  case map_of res category of
                    Some ms \<Rightarrow> Inr (storeSeries res category metric s, rs)
                  | None \<Rightarrow>
                      if inheritedIn rs category then
                        (case inheritedProperty rs category of
                           None \<Rightarrow> Inl TypeError
                         | Some b \<Rightarrow>
                             (case assign rs b metric s of
                                Inl e \<Rightarrow> Inl e
                              | Inr rs' \<Rightarrow> Inr (res, rs')))
                      else Inr (storeSeries res category metric s, rs))))"

fun analysePairs ::
  "fileData list \<Rightarrow> results \<times> arealm \<Rightarrow> string list \<Rightarrow> jserror + results \<times> arealm" where
  "analysePairs files st [] = Inr st"
| "analysePairs files st (pair # pairs) =
     (case analysePair files st pair of
        Inl e \<Rightarrow> Inl e
      | Inr st' \<Rightarrow> analysePairs files st' pairs)"

text \<open>The object that \<open>runAnalysis\<close> returns, or the exception that it throws.\<close>

definition runAnalysis :: "fileData arrayArg \<Rightarrow> jserror + results" where
  "runAnalysis fileDataList =
     (case fileDataList of
        NotAnArray \<Rightarrow> Inr []
      | Array [] \<Rightarrow> Inr []
      | Array (f # fs) \<Rightarrow>
          (case analysePairs (f # fs) ([], freshRealm) (intersectPairs (pairKeys (data f)) fs) of
             Inl e \<Rightarrow> Inl e
           | Inr (res, rs) \<Rightarrow> Inr res))"

section \<open>From the parser to the analyzer\<close>

text \<open>
  \<open>ParsingService.parseFile\<close> copies the own entries of the object that
  \<open>parseVngText\<close> returned into a \<open>ParsedFile\<close>, and \<open>AnalysisService.analyzeFiles\<close> copies
  them again (\<open>_convertParsedFileToDict\<close>) into the \<open>{'name', 'data'}\<close> dictionary that
  it passes to \<open>runAnalysis\<close>. Both copies list the entries with \<open>Object.entries\<close>,
  which sees own properties only. The copies are modelled in the order of the table
  (JavaScript lists a name that is an array index before the other names).
\<close>

definition toFileData :: "string \<Rightarrow> (string \<times> catobj) list \<Rightarrow> fileData" where
  "toFileData fileName dm = \<lparr>name = fileName, data = map (\<lambda>(c, obj). (c, props obj)) dm\<rparr>"

section \<open>Definitions used in the statements and proofs\<close>

text \<open>The numeric (non-null, non-\<open>NaN\<close>) values of an array, and the sample standard
  deviation of a list of reals as the specification words it: the square root of the
  sum of the squared deviations from the mean, divided by \<open>n - 1\<close>.\<close>

definition numericValues :: "jsval list \<Rightarrow> real list" where
  "numericValues vs = concat (map (\<lambda>v. case v of Number (Num r) \<Rightarrow> [r] | _ \<Rightarrow> []) vs)"

definition sampleStdDevSpec :: "real list \<Rightarrow> real" where
  "sampleStdDevSpec xs =
     (let mean = sum_list xs / real (length xs)
      in sqrt (sum_list (map (\<lambda>x. (x - mean)\<^sup>2) xs) / real (length xs - 1)))"

text \<open>
  The shape of a value line, read off the pattern \<open>valueRegex\<close>: at the start of \<open>s\<close>
  stand a colon and a space, then a non-empty longest run of digits, dots and minus
  signs (the numeric token), then letters, percent signs and white space, and then
  either the end of the line or the marker \<open>| FLAG\<close> and the end of the line. The
  result is the token and whether the marker is there.
\<close>

definition valueLineAt :: "string \<Rightarrow> (string \<times> bool) option" where
  "valueLineAt s =
     (if prefix '': '' s then
        (let s1 = drop 2 s;
             tok = takeWhile isNumChar s1;
             rest = dropWhile isNoiseChar (dropWhile isNumChar s1)
         in if tok = [] then None
            else if rest = ''| FLAG'' then Some (tok, True)
            else if rest = [] then Some (tok, False)
            else None)
      else None)"

text \<open>
  The shape of a parenthesized suffix, read off the pattern \<open>parenRegex\<close>: \<open>s\<close> is white
  space, an opening parenthesis, a non-empty text without a closing parenthesis, and a
  closing parenthesis at the end.
\<close>

definition parenSuffixAt :: "string \<Rightarrow> bool" where
  "parenSuffixAt s =
     (case dropWhile isSpace s of
        [] \<Rightarrow> False
      | c # cs \<Rightarrow> c = CHR ''('' \<and> takeWhile (\<lambda>x. x \<noteq> CHR '')'') cs \<noteq> []
                  \<and> dropWhile (\<lambda>x. x \<noteq> CHR '')'') cs = '')'')"

text \<open>Every reading in a result of the parser holds a number that is not \<open>NaN\<close>.\<close>

definition numericMap :: "(string \<times> catobj) list \<Rightarrow> bool" where
  "numericMap dm \<longleftrightarrow>
     (\<forall>c obj m r. map_of dm c = Some obj \<longrightarrow> map_of (props obj) m = Some r
        \<longrightarrow> (\<exists>v. rvalue r = Number (Num v)))"

text \<open>
  The (category, metric) keys of one file, the keys that every file of a non-empty
  list has, and the keys of a result of the analyzer.
\<close>

definition hasMetric :: "fileData \<Rightarrow> string \<Rightarrow> string \<Rightarrow> bool" where
  "hasMetric f c m =
     (case map_of (data f) c of None \<Rightarrow> False | Some ms \<Rightarrow> map_of ms m \<noteq> None)"

definition commonKeys :: "fileData list \<Rightarrow> (string \<times> string) set" where
  "commonKeys files = {(c, m). files \<noteq> [] \<and> list_all (\<lambda>f. hasMetric f c m) files}"

definition resultKeys :: "results \<Rightarrow> (string \<times> string) set" where
  "resultKeys res = {(c, m). case map_of res c of None \<Rightarrow> False | Some ms \<Rightarrow> map_of ms m \<noteq> None}"

text \<open>The series that the analyzer builds for a decoded key when the test of line 71
  is truthy for every file, in some state of the realm; and the results all of whose
  series are such.\<close>

definition seriesFor :: "fileData list \<Rightarrow> string \<Rightarrow> string \<Rightarrow> series \<Rightarrow> bool" where
  "seriesFor files c m s \<longleftrightarrow>
     (\<exists>rs ps. collect rs files c m = Inr ps \<and> length ps = length files
        \<and> s = makeSeries (length files) (map fst ps) (map snd ps))"

definition builtFrom :: "fileData list \<Rightarrow> results \<Rightarrow> bool" where
  "builtFrom files res \<longleftrightarrow>
     (\<forall>c ms m s. map_of res c = Some ms \<longrightarrow> map_of ms m = Some s \<longrightarrow> seriesFor files c m s)"

text \<open>
  Names for which the key of the analyzer can be split again: no category and no metric
  of the file contains a colon. \<open>plainNames\<close> says in addition that none is a property
  name of \<open>Object.prototype\<close>.
\<close>

definition colonFree :: "fileData \<Rightarrow> bool" where
  "colonFree f \<longleftrightarrow>
     (\<forall>c ms m r. map_of (data f) c = Some ms \<longrightarrow> map_of ms m = Some r
        \<longrightarrow> CHR '':'' \<notin> set c \<and> CHR '':'' \<notin> set m)"

definition plainNames :: "fileData \<Rightarrow> bool" where
  "plainNames f \<longleftrightarrow>
     (\<forall>c ms m r. map_of (data f) c = Some ms \<longrightarrow> map_of ms m = Some r
        \<longrightarrow> c \<notin> set objectPrototypeNames \<and> m \<notin> set objectPrototypeNames)"

text \<open>
  The states of the realm that the analyzer reaches: \<open>Object.prototype\<close> and
  \<open>Function.prototype\<close> keep their prototypes; a series object that has become a
  prototype is the value of no property and keeps its own prototype; every series
  object that is mentioned exists. \<open>assignable\<close> are the objects that
  \<open>results[category]\<close> can be.
\<close>

definition realmOk :: "arealm \<Rightarrow> bool" where
  "realmOk rs \<longleftrightarrow>
     map_of (newProto rs) ObjectProto = None \<and> map_of (newProto rs) FunctionProto = None
     \<and> (\<forall>b j. map_of (newProto rs) b = Some j \<longrightarrow>
           j < length (seriesObjs rs) \<and> map_of (newProto rs) (SeriesObj j) = None
           \<and> (\<forall>x. map_of (assigned rs) x \<noteq> Some j))
     \<and> (\<forall>x j. map_of (assigned rs) x = Some j \<longrightarrow> j < length (seriesObjs rs))
     \<and> (\<forall>k j. map_of (newProto rs) (SeriesObj k) = Some j \<longrightarrow> k < length (seriesObjs rs))"

definition assignable :: "arealm \<Rightarrow> robject \<Rightarrow> bool" where
  "assignable rs b \<longleftrightarrow>
     (case b of
        ObjectProto \<Rightarrow> True
      | FunctionProto \<Rightarrow> False
      | BuiltinFn f \<Rightarrow> True
      | SeriesObj k \<Rightarrow> (\<exists>x. map_of (assigned rs) x = Some k))"

section \<open>The statistics functions\<close>

lemma valid_filter:
  "map toNumber (filter (\<lambda>v. v \<noteq> Null \<and> v \<noteq> Undefined \<and> \<not> isNaN v) vs) = map Num (numericValues vs)"
proof (induction vs)
  case Nil
  show ?case by (simp add: numericValues_def)
next
  case (Cons v vs)
  then show ?case
    by (cases v; cases "toNumber v") (auto simp: numericValues_def isNaN_def)
qed

lemma foldl_jsadd:
  "foldl (\<lambda>sum v. jsadd sum (f v)) (Num a) vs = Num (a + sum_list xs)"
  if "map f vs = map Num xs"
  using that
proof (induction vs arbitrary: a xs)
  case Nil
  then show ?case by simp
next
  case (Cons v vs)
  then obtain x xs' where xs: "xs = x # xs'" "f v = Num x" "map f vs = map Num xs'"
    by (cases xs) auto
  with Cons.IH [of xs' "a + x"] show ?case by (simp add: add.assoc)
qed

lemma calculateStdDev_few:
  "length (numericValues vs) < 2 \<Longrightarrow> calculateStdDev (Array vs) = Num 0"
proof -
  assume a: "length (numericValues vs) < 2"
  have "length (filter (\<lambda>v. v \<noteq> Null \<and> v \<noteq> Undefined \<and> \<not> isNaN v) vs) = length (numericValues vs)"
    using valid_filter [of vs] by (metis length_map)
  with a show ?thesis by (simp add: calculateStdDev_def Let_def)
qed

lemma calculateStdDev_many:
  assumes "2 \<le> length (numericValues vs)"
  shows "calculateStdDev (Array vs) = Num (sampleStdDevSpec (numericValues vs))"
proof -
  let ?valid = "filter (\<lambda>v. v \<noteq> Null \<and> v \<noteq> Undefined \<and> \<not> isNaN v) vs"
  let ?xs = "numericValues vs"
  have vf: "map toNumber ?valid = map Num ?xs" by (rule valid_filter)
  then have len: "length ?valid = length ?xs" by (metis length_map)
  have "length ?valid \<le> length vs" by simp
  with len assms have lvs: "\<not> length vs < 2" by linarith
  define mean where "mean = sum_list ?xs / real (length ?xs)"
  have ne: "?xs \<noteq> []" using assms by auto
  have m: "jsdiv (foldl (\<lambda>sum v. jsadd sum (toNumber v)) (Num 0) ?valid) (Num (real (length ?xs))) = Num mean"
    using assms ne by (simp add: foldl_jsadd [OF vf] mean_def)
  have sq: "map (\<lambda>v. jssquare (jssub (toNumber v) (Num mean))) ?valid = map Num (map (\<lambda>x. (x - mean)\<^sup>2) ?xs)"
  proof -
    have "map (\<lambda>v. jssquare (jssub (toNumber v) (Num mean))) ?valid
        = map (\<lambda>n. jssquare (jssub n (Num mean))) (map toNumber ?valid)"
      by (simp add: comp_def)
    also have "\<dots> = map Num (map (\<lambda>x. (x - mean)\<^sup>2) ?xs)"
      by (simp add: vf comp_def power2_eq_square)
    finally show ?thesis .
  qed
  have nonneg: "0 \<le> sum_list (map (\<lambda>x. (x - mean)\<^sup>2) ?xs) / real (length ?xs - 1)"
    by (intro divide_nonneg_nonneg sum_list_nonneg) auto
  show ?thesis
    using assms lvs nonneg ne
    by (simp add: calculateStdDev_def Let_def m foldl_jsadd [OF sq] len sampleStdDevSpec_def
        mean_def [symmetric] del: filter.simps)
qed

text \<open>
  Claim C6. \<open>calculateStdDev\<close> returns 0 for an argument that is not an array and for
  an array with fewer than two numeric (non-null, non-\<open>NaN\<close>) values; otherwise it
  returns the square root of the sample variance of the numeric values, the sum of the
  squared deviations from their mean divided by \<open>n - 1\<close>. It gives 0 on \<open>[5]\<close> and on
  \<open>[2, 2]\<close>, and 1 on \<open>[1, 2, 3]\<close>.
\<close>

theorem calculateStdDev_sample:
  "calculateStdDev NotAnArray = Num 0
   \<and> (length (numericValues vs) < 2 \<longrightarrow> calculateStdDev (Array vs) = Num 0)
   \<and> (2 \<le> length (numericValues vs) \<longrightarrow>
        calculateStdDev (Array vs) = Num (sampleStdDevSpec (numericValues vs)))
   \<and> calculateStdDev (Array [Number (Num 5)]) = Num 0
   \<and> calculateStdDev (Array [Number (Num 2), Number (Num 2)]) = Num 0
   \<and> calculateStdDev (Array [Number (Num 1), Number (Num 2), Number (Num 3)]) = Num 1"
proof -
  have a: "calculateStdDev NotAnArray = Num 0" by (simp add: calculateStdDev_def)
  have b: "calculateStdDev (Array [Number (Num 5)]) = Num 0" by (simp add: calculateStdDev_def)
  have c: "calculateStdDev (Array [Number (Num 2), Number (Num 2)]) = Num 0"
    by (simp add: calculateStdDev_def isNaN_def)
  have d: "calculateStdDev (Array [Number (Num 1), Number (Num 2), Number (Num 3)]) = Num 1"
    by (simp add: calculateStdDev_def isNaN_def)
  from a b c d calculateStdDev_few calculateStdDev_many show ?thesis by blast
qed

theorem calculateStdDev_sample_witness:
  "calculateStdDev (Array [Number NaN, Null, Number (Num 7)]) = Num 0
   \<and> calculateStdDev (Array [Number (Num 1), Undefined, Number (Num 3), Number NaN]) = Num (sqrt 2)"
proof -
  have n1: "numericValues [Number NaN, Null, Number (Num 7)] = [7]"
    by (simp add: numericValues_def)
  have n2: "numericValues [Number (Num 1), Undefined, Number (Num 3), Number NaN] = [1, 3]"
    by (simp add: numericValues_def)
  show ?thesis
    using calculateStdDev_sample [of "[Number NaN, Null, Number (Num 7)]"]
      calculateStdDev_sample [of "[Number (Num 1), Undefined, Number (Num 3), Number NaN]"]
    by (simp add: n1 n2 sampleStdDevSpec_def)
qed

text \<open>
  Claim C5. \<open>calculatePercentChange\<close> returns \<open>null\<close> when an argument is \<open>null\<close> or
  \<open>undefined\<close>; for the baseline 0 it returns 0 when the new value is 0 too and \<open>null\<close>
  otherwise; for any other pair of numbers it returns
  \<open>(newValue - baseline) / baseline * 100\<close>, which is \<open>NaN\<close> when one of them is. So
  it gives 0 on \<open>(0, 0)\<close>, \<open>null\<close> on \<open>(0, 5)\<close> and 50 on \<open>(100, 150)\<close>.
\<close>

theorem calculatePercentChange_cases:
  "(b = Null \<or> b = Undefined \<or> n = Null \<or> n = Undefined \<longrightarrow> calculatePercentChange b n = Null)
   \<and> calculatePercentChange (Number (Num 0)) (Number (Num 0)) = Number (Num 0)
   \<and> (n \<noteq> Number (Num 0) \<longrightarrow> calculatePercentChange (Number (Num 0)) n = Null)
   \<and> (x \<noteq> 0 \<longrightarrow> calculatePercentChange (Number (Num x)) (Number (Num y))
                    = Number (Num ((y - x) / x * 100)))
   \<and> (x \<noteq> 0 \<longrightarrow> calculatePercentChange (Number (Num x)) (Number NaN) = Number NaN)
   \<and> calculatePercentChange (Number NaN) (Number m) = Number NaN
   \<and> calculatePercentChange (Number (Num 0)) (Number (Num 5)) = Null
   \<and> calculatePercentChange (Number (Num 100)) (Number (Num 150)) = Number (Num 50)"
  by (cases m) (simp_all add: calculatePercentChange_def)

theorem calculatePercentChange_cases_witness:
  "calculatePercentChange Undefined (Number (Num 3)) = Null
   \<and> calculatePercentChange (Number (Num 0)) (Number NaN) = Null
   \<and> calculatePercentChange (Number (Num 4)) (Number (Num 5)) = Number (Num 25)
   \<and> calculatePercentChange (Number (Num 4)) (Number NaN) = Number NaN"
  using calculatePercentChange_cases [of Undefined "Number (Num 3)" 4 5]
    calculatePercentChange_cases [of Null "Number NaN" 4 5]
  by simp
section \<open>What the value pattern matches\<close>

text \<open>
  The lemmas of this section reduce the backtracking matcher on \<open>valueRegex\<close> to the
  shape \<open>valueLineAt\<close>: giving characters back from the greedy token never leads to a
  match, because the character after a shorter token is a digit, dot or minus sign,
  which neither the lazy class nor the marker nor the end of the line accepts.
\<close>

lemma numChar_not_noise: "isNumChar c \<Longrightarrow> \<not> isNoiseChar c"
  by (auto simp: isNumChar_def isNoiseChar_def isDigit_def isSpace_def isLetter_def)

lemma numChar_not_bar: "isNumChar c \<Longrightarrow> c \<noteq> CHR ''|''"
  by (auto simp: isNumChar_def isDigit_def)

lemma noiseChar_not_bar: "isNoiseChar c \<Longrightarrow> c \<noteq> CHR ''|''"
  by (auto simp: isNoiseChar_def isSpace_def isLetter_def)

lemma concat_map_Nil: "(\<And>x. x \<in> set xs \<Longrightarrow> f x = []) \<Longrightarrow> concat (map f xs) = []"
  by (induction xs) auto

lemma drop_takeWhile_head:
  assumes "k < length (takeWhile p s)"
  shows "\<exists>x xs. drop k s = x # xs \<and> p x"
proof -
  from assms have k: "k < length s"
    using length_takeWhile_le [of p s] by linarith
  have "p (s ! k)"
    using assms by (metis nth_mem set_takeWhileD takeWhile_nth)
  moreover have "drop k s = s ! k # drop (Suc k) s"
    using k by (simp add: Cons_nth_drop_Suc)
  ultimately show ?thesis by blast
qed

lemma runs_flag_end:
  "runs (Seq (Opt (Grp 2 (Lit ''| FLAG''))) Eoi) (v, c) =
     (if v = ''| FLAG'' then [([], AList.update 2 ''| FLAG'' c)]
      else if v = [] then [([], c)] else [])"
  by (auto simp: prefix_def)

lemma runs_noise_tail:
  "runs (Seq (StarLazy isNoiseChar) (Seq (Opt (Grp 2 (Lit ''| FLAG''))) Eoi)) (u, c) =
     (let rest = dropWhile isNoiseChar u
      in if rest = ''| FLAG'' then [([], AList.update 2 ''| FLAG'' c)]
         else if rest = [] then [([], c)] else [])"
proof -
  let ?n = "length (takeWhile isNoiseChar u)"
  let ?b = "Seq (Opt (Grp 2 (Lit ''| FLAG''))) Eoi"
  have early: "runs ?b (drop k u, c) = []" if "k \<in> set [0 ..< ?n]" for k
  proof -
    from that have "k < ?n" by simp
    then obtain x xs where "drop k u = x # xs" "isNoiseChar x"
      using drop_takeWhile_head by blast
    then show ?thesis
      using noiseChar_not_bar [of x] by (simp only: runs_flag_end) auto
  qed
  have "runs (Seq (StarLazy isNoiseChar) ?b) (u, c)
      = concat (map (\<lambda>k. runs ?b (drop k u, c)) ([0 ..< ?n] @ [?n]))"
    by (simp add: comp_def del: runs.simps(5,6,7,8) upt_Suc) (simp add: comp_def)
  also have "\<dots> = runs ?b (drop ?n u, c)"
    using concat_map_Nil [of "[0 ..< ?n]" "\<lambda>k. runs ?b (drop k u, c)"] early
    by (simp del: runs.simps)
  also have "drop ?n u = dropWhile isNoiseChar u"
    by (simp add: dropWhile_eq_drop)
  finally show ?thesis
    by (simp only: runs_flag_end Let_def)
qed


lemma rev_upt_1: "n \<noteq> 0 \<Longrightarrow> rev [1 ..< Suc n] = n # rev [1 ..< n]"
  by (cases n) simp_all

lemma runs_token_tail:
  "runs (Seq (Grp 1 (PlusGreedy isNumChar))
           (Seq (StarLazy isNoiseChar) (Seq (Opt (Grp 2 (Lit ''| FLAG''))) Eoi))) (s, c) =
     (let tok = takeWhile isNumChar s
      in if tok = [] then []
         else runs (Seq (StarLazy isNoiseChar) (Seq (Opt (Grp 2 (Lit ''| FLAG''))) Eoi))
                (dropWhile isNumChar s, AList.update 1 tok c))"
proof -
  let ?n = "length (takeWhile isNumChar s)"
  let ?t = "Seq (StarLazy isNoiseChar) (Seq (Opt (Grp 2 (Lit ''| FLAG''))) Eoi)"
  let ?st = "\<lambda>k. (drop k s, AList.update 1 (take k s) c)"
  have n_le: "?n \<le> length s" by (rule length_takeWhile_le)
  have "map (\<lambda>(s', c'). (s', AList.update 1 (take (length s - length s') s) c'))
          (map (\<lambda>k. (drop k s, c)) (rev [1 ..< Suc ?n])) = map ?st (rev [1 ..< Suc ?n])"
    unfolding map_map comp_def prod.case
  proof (rule map_cong [OF refl])
    fix k assume "k \<in> set (rev [1 ..< Suc ?n])"
    then have "k \<le> ?n" by auto
    then have "k \<le> length s" using n_le by (rule order_trans)
    then show "(drop k s, AList.update 1 (take (length s - length (drop k s)) s) c) = ?st k"
      by simp
  qed
  then have grp: "runs (Grp 1 (PlusGreedy isNumChar)) (s, c) = map ?st (rev [1 ..< Suc ?n])"
    by (simp only: runs.simps)
  have early: "runs ?t (?st k) = []" if "k \<in> set (rev [1 ..< ?n])" for k
  proof -
    from that have "k < ?n" by simp
    then obtain x xs where d: "drop k s = x # xs" "isNumChar x"
      using drop_takeWhile_head by blast
    then have "dropWhile isNoiseChar (drop k s) = x # xs"
      using numChar_not_noise by simp
    then show ?thesis
      using numChar_not_bar [OF d(2)] by (simp add: runs_noise_tail Let_def del: runs.simps)
  qed
  show ?thesis
  proof (cases "?n = 0")
    case True
    then have "runs (Grp 1 (PlusGreedy isNumChar)) (s, c) = []"
      by (simp only: grp) simp
    then show ?thesis using True by (simp only: runs.simps(7)) simp
  next
    case False
    then have r: "rev [1 ..< Suc ?n] = ?n # rev [1 ..< ?n]" by (rule rev_upt_1)
    have "runs (Seq (Grp 1 (PlusGreedy isNumChar)) ?t) (s, c)
        = concat (map (\<lambda>k. runs ?t (?st k)) (rev [1 ..< Suc ?n]))"
      by (simp only: runs.simps(7) grp map_map comp_def)
    also have "\<dots> = runs ?t (?st ?n)"
      using concat_map_Nil [of "rev [1 ..< ?n]" "\<lambda>k. runs ?t (?st k)"] early
      by (simp only: r list.map concat.simps) (simp del: runs.simps)
    also have "?st ?n = (dropWhile isNumChar s, AList.update 1 (takeWhile isNumChar s) c)"
      by (simp add: dropWhile_eq_drop [symmetric] takeWhile_eq_take [symmetric])
    finally show ?thesis using False by (simp del: runs.simps)
  qed
qed

lemma runs_valueRegex:
  "runs valueRegex (s, []) =
     (case valueLineAt s of
        None \<Rightarrow> []
      | Some (tok, flagged) \<Rightarrow>
          [([], if flagged then [(1, tok), (2, ''| FLAG'')] else [(1, tok)])])"
proof (cases "prefix '': '' s")
  case False
  then show ?thesis by (simp add: valueRegex_def valueLineAt_def)
next
  case True
  have "runs valueRegex (s, []) =
      runs (Seq (Grp 1 (PlusGreedy isNumChar))
             (Seq (StarLazy isNoiseChar) (Seq (Opt (Grp 2 (Lit ''| FLAG''))) Eoi))) (drop 2 s, [])"
    using True by (simp add: valueRegex_def numeral_2_eq_2 del: runs.simps(2-6,8))
  then show ?thesis
    using True
    by (simp only: runs_token_tail runs_noise_tail valueLineAt_def Let_def)
       (simp del: runs.simps)
qed

declare execFrom.simps [simp del]

lemma execFrom_valueRegex_Nil:
  "execFrom valueRegex i [] = None"
  by (simp add: execFrom.simps [of valueRegex i "[]"] runs_valueRegex valueLineAt_def)

lemma execFrom_valueRegex_Cons:
  "execFrom valueRegex i (x # xs) =
     (case valueLineAt (x # xs) of
        None \<Rightarrow> execFrom valueRegex (Suc i) xs
      | Some (tok, flagged) \<Rightarrow>
          Some (i, if flagged then [(1, tok), (2, ''| FLAG'')] else [(1, tok)]))"
  by (simp add: execFrom.simps [of valueRegex i "x # xs"] runs_valueRegex split: option.split)

text \<open>The leftmost position at which the line has the shape of a value line.\<close>

lemma execFrom_valueRegex:
  "execFrom valueRegex i s = Some (j, caps) \<Longrightarrow>
     \<exists>k tok flagged. j = i + k \<and> k \<le> length s
        \<and> valueLineAt (drop k s) = Some (tok, flagged)
        \<and> caps = (if flagged then [(1, tok), (2, ''| FLAG'')] else [(1, tok)])"
proof (induction s arbitrary: i)
  case Nil
  then show ?case by (simp add: execFrom_valueRegex_Nil)
next
  case (Cons x xs)
  show ?case
  proof (cases "valueLineAt (x # xs)")
    case (Some a)
    obtain tok flagged where a: "a = (tok, flagged)" by (cases a)
    from Cons.prems Some a have "j = i + 0"
      and "caps = (if flagged then [(1, tok), (2, ''| FLAG'')] else [(1, tok)])"
      by (simp_all add: execFrom_valueRegex_Cons)
    with Some a show ?thesis
      by (intro exI [of _ 0] exI [of _ tok] exI [of _ flagged]) simp
  next
    case None
    with Cons.prems have "execFrom valueRegex (Suc i) xs = Some (j, caps)"
      by (simp add: execFrom_valueRegex_Cons)
    from Cons.IH [OF this] obtain k tok flagged where
      "j = Suc i + k" "k \<le> length xs" "valueLineAt (drop k xs) = Some (tok, flagged)"
      "caps = (if flagged then [(1, tok), (2, ''| FLAG'')] else [(1, tok)])"
      by blast
    then show ?thesis
      by (intro exI [of _ "Suc k"] exI [of _ tok] exI [of _ flagged]) simp
  qed
qed


lemma exec_valueRegex:
  assumes "exec valueRegex t = Some (j, caps)"
  obtains tok flagged where "j \<le> length t"
    and "valueLineAt (drop j t) = Some (tok, flagged)"
    and "caps = (if flagged then [(1, tok), (2, ''| FLAG'')] else [(1, tok)])"
  using execFrom_valueRegex [of 0 t j caps] assms by (auto simp: exec_def)

text \<open>A line that has the shape of a value line at some position ends with the
  marker exactly when the shape there has it.\<close>

lemma valueLineAt_flagged:
  assumes "valueLineAt (drop j t) = Some (tok, flagged)"
  shows "flagged \<longleftrightarrow> suffix ''| FLAG'' t"
proof -
  from assms have "prefix '': '' (drop j t)"
    by (auto simp: valueLineAt_def split: if_splits)
  then obtain s1 where s1: "drop j t = '': '' @ s1" by (auto simp: prefix_def)
  let ?noise = "dropWhile isNumChar s1"
  let ?rest = "dropWhile isNoiseChar ?noise"
  from assms have "valueLineAt ('': '' @ s1) = Some (tok, flagged)" by (simp only: s1)
  then have tok: "tok = takeWhile isNumChar s1" "tok \<noteq> []"
    and rest: "(flagged \<and> ?rest = ''| FLAG'') \<or> (\<not> flagged \<and> ?rest = [])"
    by (auto simp: valueLineAt_def Let_def split: if_splits)
  have t: "t = take j t @ '': '' @ tok @ takeWhile isNoiseChar ?noise @ ?rest"
  proof -
    have "s1 = tok @ ?noise" by (simp add: tok)
    moreover have "?noise = takeWhile isNoiseChar ?noise @ ?rest" by simp
    ultimately have "drop j t = '': '' @ tok @ takeWhile isNoiseChar ?noise @ ?rest"
      using s1 by metis
    then show ?thesis by (metis append_take_drop_id)
  qed
  show ?thesis
  proof (cases flagged)
    case True
    with rest have "?rest = ''| FLAG''" by simp
    with t have "t = (take j t @ '': '' @ tok @ takeWhile isNoiseChar ?noise) @ ''| FLAG''"
      by simp
    then have "suffix ''| FLAG'' t" by (metis suffixI)
    with True show ?thesis by simp
  next
    case False
    with rest have r: "?rest = []" by simp
    have "\<not> suffix ''| FLAG'' t"
    proof
      assume "suffix ''| FLAG'' t"
      then obtain x where x: "t = x @ ''| FLAG''" by (auto simp: suffix_def)
      have "dropWhile isNoiseChar (rev t) = ''|'' @ rev x"
        by (subst x) (simp add: isNoiseChar_def isSpace_def isLetter_def)
      moreover have "dropWhile isNoiseChar (rev t)
          = dropWhile isNoiseChar (rev tok @ rev (take j t @ '': ''))"
      proof -
        have "rev t = rev (takeWhile isNoiseChar ?noise) @ rev tok @ rev (take j t @ '': '')"
          by (subst t) (simp add: r)
        moreover have "\<And>c. c \<in> set (rev (takeWhile isNoiseChar ?noise)) \<Longrightarrow> isNoiseChar c"
          by (auto dest: set_takeWhileD)
        ultimately show ?thesis by (simp only: dropWhile_append2)
      qed
      moreover have "dropWhile isNoiseChar (rev tok @ rev (take j t @ '': ''))
          = rev tok @ rev (take j t @ '': '')"
      proof -
        from tok have "isNumChar (last tok)"
          by (metis last_in_set set_takeWhileD)
        then have "\<not> isNoiseChar (hd (rev tok))"
          using tok(2) numChar_not_noise by (simp add: hd_rev)
        moreover from tok(2) have "rev tok \<noteq> []" by simp
        ultimately show ?thesis by (cases "rev tok") auto
      qed
      ultimately have "rev tok @ rev (take j t @ '': '') = ''|'' @ rev x" by simp
      then have "hd (rev tok) = CHR ''|''"
        using tok(2) by (cases "rev tok") auto
      moreover from tok have "isNumChar (last tok)"
        by (metis last_in_set set_takeWhileD)
      ultimately show False
        using tok(2) numChar_not_bar by (simp add: hd_rev)
    qed
    with False show ?thesis by simp
  qed
qed

section \<open>What the parenthesis pattern removes\<close>

lemma rev_upt_0: "rev [0 ..< Suc n] = n # rev [0 ..< n]"
  by simp

lemma runs_paren_close:
  "runs (Seq (PlusGreedy (\<lambda>c. c \<noteq> CHR '')'')) (Seq (Lit '')'') Eoi)) (s, c) =
     (if takeWhile (\<lambda>x. x \<noteq> CHR '')'') s \<noteq> [] \<and> dropWhile (\<lambda>x. x \<noteq> CHR '')'') s = '')''
      then [([], c)] else [])"
proof -
  let ?p = "\<lambda>x. x \<noteq> CHR '')''"
  let ?n = "length (takeWhile ?p s)"
  let ?e = "Seq (Lit '')'') Eoi"
  have e: "runs ?e (v, c) = (if v = '')'' then [([], c)] else [])" for v
    by (auto simp: prefix_def)
  have early: "runs ?e (drop k s, c) = []" if "k \<in> set (rev [1 ..< ?n])" for k
  proof -
    from that have "k < ?n" by simp
    then obtain x xs where "drop k s = x # xs" "?p x"
      using drop_takeWhile_head [of k ?p s] by blast
    then show ?thesis by (simp only: e) auto
  qed
  show ?thesis
  proof (cases "?n = 0")
    case True
    then show ?thesis by simp
  next
    case False
    then have r: "rev [1 ..< Suc ?n] = ?n # rev [1 ..< ?n]" by (rule rev_upt_1)
    have "runs (Seq (PlusGreedy ?p) ?e) (s, c)
        = concat (map (\<lambda>k. runs ?e (drop k s, c)) (rev [1 ..< Suc ?n]))"
      by (simp only: runs.simps(2,7) map_map comp_def)
    also have "\<dots> = runs ?e (drop ?n s, c)"
      using concat_map_Nil [of "rev [1 ..< ?n]" "\<lambda>k. runs ?e (drop k s, c)"] early
      by (simp only: r list.map concat.simps) (simp del: runs.simps)
    also have "drop ?n s = dropWhile ?p s"
      by (simp add: dropWhile_eq_drop [symmetric])
    finally show ?thesis using False by (simp only: e) auto
  qed
qed

lemma runs_parenRegex:
  "runs parenRegex (s, c) = (if parenSuffixAt s then [([], c)] else [])"
proof -
  let ?n = "length (takeWhile isSpace s)"
  let ?t = "Seq (Lit ''('') (Seq (PlusGreedy (\<lambda>c. c \<noteq> CHR '')'')) (Seq (Lit '')'') Eoi))"
  have t: "runs ?t (v, c) =
      (case v of [] \<Rightarrow> []
       | x # xs \<Rightarrow> if x = CHR ''('' then
           runs (Seq (PlusGreedy (\<lambda>c. c \<noteq> CHR '')'')) (Seq (Lit '')'') Eoi)) (xs, c) else [])" for v
    by (cases v) (simp_all del: runs.simps(2-6,8))
  have early: "runs ?t (drop k s, c) = []" if "k \<in> set (rev [0 ..< ?n])" for k
  proof -
    from that have "k < ?n" by simp
    then obtain x xs where "drop k s = x # xs" "isSpace x"
      using drop_takeWhile_head [of k isSpace s] by blast
    then show ?thesis by (simp only: t) (auto simp: isSpace_def)
  qed
  have "runs parenRegex (s, c) = concat (map (\<lambda>k. runs ?t (drop k s, c)) (rev [0 ..< Suc ?n]))"
    by (simp only: parenRegex_def runs.simps(3,7) map_map comp_def)
  also have "\<dots> = runs ?t (drop ?n s, c)"
    using concat_map_Nil [of "rev [0 ..< ?n]" "\<lambda>k. runs ?t (drop k s, c)"] early
    by (simp only: rev_upt_0 list.map concat.simps) (simp del: runs.simps)
  also have "drop ?n s = dropWhile isSpace s"
    by (simp add: dropWhile_eq_drop [symmetric])
  finally have f: "runs parenRegex (s, c) = runs ?t (dropWhile isSpace s, c)" .
  show ?thesis
  proof (cases "dropWhile isSpace s")
    case Nil
    then show ?thesis by (simp only: f t parenSuffixAt_def list.case if_False)
  next
    case (Cons x xs)
    then show ?thesis
      by (simp add: f t runs_paren_close parenSuffixAt_def del: runs.simps)
  qed
qed

lemma execFrom_paren_hit: "parenSuffixAt s \<Longrightarrow> execFrom parenRegex i s = Some (i, [])"
  by (simp add: execFrom.simps [of parenRegex i s] runs_parenRegex)

lemma execFrom_paren_miss:
  "\<not> parenSuffixAt (x # xs) \<Longrightarrow> execFrom parenRegex i (x # xs) = execFrom parenRegex (Suc i) xs"
  by (simp add: execFrom.simps [of parenRegex i "x # xs"] runs_parenRegex)

lemma execFrom_paren_skip:
  "(\<And>k. k < length q \<Longrightarrow> \<not> parenSuffixAt (drop k (q @ s))) \<Longrightarrow>
   execFrom parenRegex i (q @ s) = execFrom parenRegex (i + length q) s"
proof (induction q arbitrary: i)
  case Nil
  then show ?case by simp
next
  case (Cons x q)
  from Cons.prems [of 0] have "\<not> parenSuffixAt (x # (q @ s))" by simp
  then have "execFrom parenRegex i ((x # q) @ s) = execFrom parenRegex (Suc i) (q @ s)"
    by (simp add: execFrom_paren_miss)
  moreover have "execFrom parenRegex (Suc i) (q @ s) = execFrom parenRegex (Suc i + length q) s"
  proof (rule Cons.IH)
    fix k assume "k < length q"
    with Cons.prems [of "Suc k"] show "\<not> parenSuffixAt (drop k (q @ s))" by simp
  qed
  ultimately show ?case by simp
qed

text \<open>A text \<open>p\<close> without an opening parenthesis, followed by white space and a
  parenthesized unit: the unit and the white space before it are removed.\<close>

lemma removeMatch_paren_suffix:
  assumes "CHR ''('' \<notin> set p" and "\<forall>c \<in> set w. isSpace c" and "b \<noteq> []" and "CHR '')'' \<notin> set b"
  shows "removeMatch parenRegex (p @ w @ ''('' @ b @ '')'') = trimEnd p"
proof -
  let ?q = "trimEnd p"
  let ?sp = "rev (takeWhile isSpace (rev p))"
  let ?u = "''('' @ b @ '')''"
  let ?s = "(?sp @ w) @ ?u"
  let ?np = "\<lambda>x. x \<noteq> CHR '')''"
  have p: "p = ?q @ ?sp"
  proof -
    have "?q @ ?sp = rev (takeWhile isSpace (rev p) @ dropWhile isSpace (rev p))"
      by (simp only: trimEnd_def rev_append)
    also have "\<dots> = p" by (simp only: takeWhile_dropWhile_id rev_rev_ident)
    finally show ?thesis by (rule sym)
  qed
  have sp: "isSpace c" if "c \<in> set (?sp @ w)" for c
    using that assms(2) by (auto dest: set_takeWhileD)
  have hit: "parenSuffixAt ?s"
  proof -
    have "dropWhile isSpace ?s = dropWhile isSpace ?u"
      using sp by (rule dropWhile_append2)
    also have "\<dots> = CHR ''('' # (b @ '')'')" by (simp add: isSpace_def)
    finally have d: "dropWhile isSpace ?s = CHR ''('' # (b @ '')'')" .
    have nb: "?np x" if "x \<in> set b" for x using that assms(4) by auto
    have "takeWhile ?np (b @ '')'') = b @ takeWhile ?np '')''"
      using nb by (rule takeWhile_append2)
    moreover have "dropWhile ?np (b @ '')'') = dropWhile ?np '')''"
      using nb by (rule dropWhile_append2)
    ultimately show ?thesis
      unfolding parenSuffixAt_def d using assms(3) by simp
  qed
  have miss: "\<not> parenSuffixAt (drop k (?q @ ?s))" if "k < length ?q" for k
  proof -
    let ?d = "drop k ?q"
    from that have ne: "?d \<noteq> []" by simp
    from that have "?q \<noteq> []" by auto
    then have dq: "dropWhile isSpace (rev p) \<noteq> []" by (simp add: trimEnd_def)
    then have "last ?q = hd (dropWhile isSpace (rev p))" by (simp add: trimEnd_def last_rev)
    with hd_dropWhile [OF dq] have "\<not> isSpace (last ?q)" by simp
    moreover have "last ?d = last ?q" using that by simp
    ultimately have nl: "\<not> isSpace (last ?d)" by simp
    have li: "last ?d \<in> set ?d" using ne by (rule last_in_set)
    with nl have "dropWhile isSpace ?d \<noteq> []" by auto
    then obtain x xs where x: "dropWhile isSpace ?d = x # xs"
      by (cases "dropWhile isSpace ?d") auto
    then have "x \<in> set (dropWhile isSpace ?d)" by simp
    then have "x \<in> set ?d" by (rule set_dropWhileD)
    then have "x \<in> set ?q" by (rule in_set_dropD)
    then have "x \<in> set (?q @ ?sp)" by simp
    then have "x \<in> set p" using p by simp
    with assms(1) have xne: "x \<noteq> CHR ''(''" by auto
    have "drop k (?q @ ?s) = ?d @ ?s" using that by simp
    moreover have "dropWhile isSpace (?d @ ?s) = dropWhile isSpace ?d @ ?s"
      using li nl by (rule dropWhile_append1)
    ultimately have "dropWhile isSpace (drop k (?q @ ?s)) = x # (xs @ ?s)" using x by simp
    then show ?thesis unfolding parenSuffixAt_def using xne by (simp only: list.case) simp
  qed
  have "execFrom parenRegex 0 (?q @ ?s) = execFrom parenRegex (0 + length ?q) ?s"
    using miss by (rule execFrom_paren_skip)
  then have ex: "exec parenRegex (?q @ ?s) = Some (length ?q, [])"
    using execFrom_paren_hit [OF hit, of "length ?q"] by (simp add: exec_def)
  have eq: "p @ w @ ?u = ?q @ ?s"
  proof -
    have "p @ w @ ?u = (?q @ ?sp) @ w @ ?u" using p by simp
    then show ?thesis by simp
  qed
  have "removeMatch parenRegex (?q @ ?s) = take (length ?q) (?q @ ?s)"
    unfolding removeMatch_def ex by simp
  then have "removeMatch parenRegex (?q @ ?s) = ?q" by simp
  then show ?thesis unfolding eq .
qed

text \<open>A text that does not end with a closing parenthesis is left as it is.\<close>

lemma parenSuffixAt_last:
  assumes "parenSuffixAt s"
  shows "s \<noteq> [] \<and> last s = CHR '')''"
proof -
  let ?np = "\<lambda>x. x \<noteq> CHR '')''"
  from assms obtain cs where d: "dropWhile isSpace s = CHR ''('' # cs"
    and c: "dropWhile ?np cs = '')''"
    by (auto simp: parenSuffixAt_def split: list.splits)
  have "s = takeWhile isSpace s @ dropWhile isSpace s" by simp
  also have "dropWhile isSpace s = CHR ''('' # (takeWhile ?np cs @ dropWhile ?np cs)"
    using d by simp
  finally have "s = (takeWhile isSpace s @ CHR ''('' # takeWhile ?np cs) @ '')''"
    using c by simp
  then obtain u where "s = u @ '')''" by blast
  then show ?thesis by simp
qed

lemma execFrom_paren_None:
  "s = [] \<or> last s \<noteq> CHR '')'' \<Longrightarrow> execFrom parenRegex i s = None"
proof (induction s arbitrary: i)
  case Nil
  have "\<not> parenSuffixAt []" by (simp add: parenSuffixAt_def)
  then show ?case by (simp add: execFrom.simps [of parenRegex i "[]"] runs_parenRegex)
next
  case (Cons x xs)
  then have "\<not> parenSuffixAt (x # xs)" using parenSuffixAt_last by blast
  moreover from Cons.prems have "xs = [] \<or> last xs \<noteq> CHR '')''" by (auto split: if_splits)
  ultimately show ?case using Cons.IH by (simp add: execFrom_paren_miss)
qed

lemma removeMatch_paren_none:
  "s = [] \<or> last s \<noteq> CHR '')'' \<Longrightarrow> removeMatch parenRegex s = s"
  by (simp add: removeMatch_def exec_def execFrom_paren_None)

section \<open>The parser, line by line\<close>

lemma indexOf_take: "indexOf s c = Some i \<Longrightarrow> take i s = takeWhile (\<lambda>x. x \<noteq> c) s"
  by (induction s arbitrary: i) (auto split: if_splits)

lemma indexOf_None: "indexOf s c = None \<longleftrightarrow> c \<notin> set s"
  by (induction s) auto

lemma exec_valueRegex_line:
  assumes "exec valueRegex t = Some (j, caps)"
  shows "t \<noteq> []" and "CHR '':'' \<in> set t"
    and "\<exists>tok. map_of caps 1 = Some tok \<and> tok \<noteq> []"
    and "map_of caps 2 \<noteq> None \<longleftrightarrow> suffix ''| FLAG'' t"
proof -
  from assms obtain tok flagged where j: "j \<le> length t"
    and v: "valueLineAt (drop j t) = Some (tok, flagged)"
    and caps: "caps = (if flagged then [(1, tok), (2, ''| FLAG'')] else [(1, tok)])"
    by (rule exec_valueRegex)
  from v have p: "prefix '': '' (drop j t)" and tok: "tok \<noteq> []"
    by (auto simp: valueLineAt_def Let_def split: if_splits)
  from p obtain zs where "drop j t = '': '' @ zs" by (auto simp: prefix_def)
  then have "CHR '':'' \<in> set (drop j t)" by simp
  then show c: "CHR '':'' \<in> set t" by (rule in_set_dropD)
  then show "t \<noteq> []" by auto
  from caps tok show "\<exists>tok. map_of caps 1 = Some tok \<and> tok \<noteq> []" by auto
  from caps have "map_of caps 2 \<noteq> None \<longleftrightarrow> flagged" by auto
  with valueLineAt_flagged [OF v] show "map_of caps 2 \<noteq> None \<longleftrightarrow> suffix ''| FLAG'' t" by simp
qed

lemma processLine_value:
  assumes "exec valueRegex (trim line) = Some (j, caps)" and "map_of caps 1 = Some tok"
  shows "processLine st line =
     (case parseFloat tok of
        NaN \<Rightarrow> Inr st
      | Num v \<Rightarrow>
          storeMetric st
            (trim (removeMatch parenRegex (trim (takeWhile (\<lambda>c. c \<noteq> CHR '':'') (trim line)))))
            \<lparr>rvalue = Number (Num v), isFlagged = suffix ''| FLAG'' (trim line)\<rparr>)"
proof -
  note facts = exec_valueRegex_line [OF assms(1)]
  from facts(3) assms(2) have tok: "tok \<noteq> []" by auto
  from facts(2) obtain i where i: "indexOf (trim line) CHR '':'' = Some i"
    using indexOf_None [of "trim line" "CHR '':''"] by auto
  show ?thesis
    using assms facts(1,4) tok i indexOf_take [OF i]
    by (cases "parseFloat tok") (simp_all add: processLine_def valueMatch_def isNaN_def metricNameOf_def Let_def)
qed


lemma processLine_header:
  assumes "trim line = h @ '':''" and "exec valueRegex (trim line) = None"
  shows "processLine st line =
     (if includesStr (trim line) ''Summary of Flagged Findings'' then Inr st
      else Inr (st\<lparr>currentCategory := headerCategory (trim line)\<rparr>))"
  using assms by (simp add: processLine_def valueMatch_def Let_def test_def endsWith_def)

lemma headerCategory_plain:
  "\<not> suffix '' //'' (trim h) \<Longrightarrow> headerCategory (h @ '':'') = trim h"
  by (simp add: headerCategory_def endsWith_def Let_def)

lemma headerCategory_slashes:
  assumes "trim h = b @ '' //''"
  shows "headerCategory (h @ '':'') = trim b"
proof -
  have "suffix '' //'' (b @ '' //'')" by (rule suffixI [OF refl])
  with assms show ?thesis by (simp add: headerCategory_def endsWith_def Let_def)
qed

text \<open>The three ways of \<open>storeMetric\<close>: the category is an own property of the result,
  it is new and not inherited, or it is an inherited name.\<close>

lemma storeMetric_existing:
  "map_of (dataMap st) (currentCategory st) = Some obj \<Longrightarrow>
   storeMetric st m r =
     Inr (st\<lparr>dataMap := AList.update (currentCategory st) (putOwn obj m r) (dataMap st)\<rparr>)"
  by (simp add: storeMetric_def hasProperty_def Let_def)

lemma storeMetric_new:
  "map_of (dataMap st) (currentCategory st) = None \<Longrightarrow>
   \<not> inheritedName (realmLog st) (currentCategory st) \<Longrightarrow>
   storeMetric st m r =
     Inr (st\<lparr>dataMap := AList.update (currentCategory st)
                 (putOwn \<lparr>props = [], protoLink = None\<rparr> m r)
                 (dataMap st @ [(currentCategory st, \<lparr>props = [], protoLink = None\<rparr>)])\<rparr>)"
  by (simp add: storeMetric_def hasProperty_def Let_def map_add_def)

lemma storeMetric_inherited:
  "map_of (dataMap st) (currentCategory st) = None \<Longrightarrow>
   inheritedName (realmLog st) (currentCategory st) \<Longrightarrow>
   storeMetric st m r =
     (case realmAssign (realmLog st) (inheritedTarget (realmLog st) (currentCategory st)) m r of
        Inl e \<Rightarrow> Inl e
      | Inr rlm \<Rightarrow> Inr (st\<lparr>realmLog := rlm\<rparr>))"
  by (simp add: storeMetric_def hasProperty_def Let_def)

lemma storeMetric_own:
  assumes "\<not> inheritedName (realmLog st) (currentCategory st)" and "m \<noteq> ''__proto__''"
  shows "\<exists>st' obj. storeMetric st m r = Inr st'
     \<and> map_of (dataMap st') (currentCategory st) = Some obj
     \<and> map_of (props obj) m = Some r
     \<and> currentCategory st' = currentCategory st \<and> realmLog st' = realmLog st"
proof (cases "map_of (dataMap st) (currentCategory st)")
  case None
  with assms show ?thesis
    by (simp add: storeMetric_new putOwn_def update_conv')
next
  case (Some obj)
  with assms show ?thesis
    by (simp add: storeMetric_existing putOwn_def update_conv')
qed

lemma numericMap_storeMetric:
  assumes "numericMap (dataMap st)" and "storeMetric st m r = Inr st'"
    and "rvalue r = Number (Num v)"
  shows "numericMap (dataMap st')"
proof (cases "map_of (dataMap st) (currentCategory st)")
  case (Some obj)
  with assms(2) have d: "dataMap st' = AList.update (currentCategory st)
      (putOwn obj m r) (dataMap st)"
    by (auto simp: storeMetric_existing)
  show ?thesis
    unfolding numericMap_def d update_conv'
    using assms(1,3) Some
    by (auto simp: numericMap_def putOwn_def update_conv' split: if_splits)
next
  case None
  show ?thesis
  proof (cases "inheritedName (realmLog st) (currentCategory st)")
    case True
    with None assms(2) have "dataMap st' = dataMap st"
      by (auto simp: storeMetric_inherited split: sum.splits)
    with assms(1) show ?thesis by simp
  next
    case False
    with None assms(2) have d: "dataMap st' = AList.update (currentCategory st)
        (putOwn \<lparr>props = [], protoLink = None\<rparr> m r)
        (dataMap st @ [(currentCategory st, \<lparr>props = [], protoLink = None\<rparr>)])"
      by (auto simp: storeMetric_new)
    show ?thesis
      unfolding numericMap_def d update_conv'
      using assms(1,3) None
      by (auto simp: numericMap_def putOwn_def update_conv' map_add_def
          split: if_splits option.splits)
  qed
qed

lemma not_NaN: "n \<noteq> NaN \<longleftrightarrow> (\<exists>v. n = Num v)"
  by (cases n) auto

lemma processLine_cases:
  assumes "processLine st line = Inr st'"
  shows "st' = st \<or> (\<exists>c. st' = st\<lparr>currentCategory := c\<rparr>)
     \<or> (\<exists>m v f. storeMetric st m \<lparr>rvalue = Number (Num v), isFlagged = f\<rparr> = Inr st')"
  using assms
  by (auto simp: processLine_def valueMatch_def Let_def isNaN_def not_NaN
      split: if_splits option.splits prod.splits)

lemma numericMap_processLine:
  assumes "numericMap (dataMap st)" and "processLine st line = Inr st'"
  shows "numericMap (dataMap st')"
  using processLine_cases [OF assms(2)]
proof (elim disjE exE)
  fix m v f
  assume "storeMetric st m \<lparr>rvalue = Number (Num v), isFlagged = f\<rparr> = Inr st'"
  from numericMap_storeMetric [OF assms(1) this] show ?thesis by simp
qed (use assms(1) in auto)

lemma numericMap_parseLines:
  "numericMap (dataMap st) \<Longrightarrow> parseLines st ls = Inr st' \<Longrightarrow> numericMap (dataMap st')"
proof (induction ls arbitrary: st)
  case Nil
  then show ?case by simp
next
  case (Cons l ls)
  then show ?case
    by (auto split: sum.splits dest: numericMap_processLine)
qed

lemma numericMap_parseVngTextIn:
  "parseVngTextIn rlm arg = Inr (dm, rlm') \<Longrightarrow> numericMap dm"
proof (cases arg)
  case NotAString
  then show "parseVngTextIn rlm arg = Inr (dm, rlm') \<Longrightarrow> numericMap dm"
    by (auto simp: parseVngTextIn_def numericMap_def)
next
  case (Str s)
  assume a: "parseVngTextIn rlm arg = Inr (dm, rlm')"
  show "numericMap dm"
  proof (cases "s = []")
    case True
    with a Str show ?thesis by (auto simp: parseVngTextIn_def numericMap_def)
  next
    case False
    with a Str obtain st where
      "parseLines \<lparr>dataMap = [], currentCategory = ''General'', realmLog = rlm\<rparr>
         (splitStr s [CHR 10]) = Inr st" "dm = dataMap st"
      by (auto simp: parseVngTextIn_def split: sum.splits)
    with numericMap_parseLines [of "\<lparr>dataMap = [], currentCategory = ''General'', realmLog = rlm\<rparr>"]
    show ?thesis by (auto simp: numericMap_def)
  qed
qed

text \<open>A text none of whose header lines names a member of \<open>Object.prototype\<close> is
  parsed without an exception and without an assignment outside the result.\<close>

lemma processLine_plain:
  assumes "realmLog st = []" and "currentCategory st \<notin> set objectPrototypeNames"
    and "headerCategory (trim line) \<notin> set objectPrototypeNames"
  shows "\<exists>st'. processLine st line = Inr st' \<and> realmLog st' = []
     \<and> currentCategory st' \<notin> set objectPrototypeNames"
proof -
  have ni: "\<not> inheritedName (realmLog st) (currentCategory st)"
    using assms(1,2) by (simp add: inheritedName_def pollutedNames_def)
  have store: "\<exists>st'. storeMetric st m r = Inr st' \<and> realmLog st' = []
      \<and> currentCategory st' \<notin> set objectPrototypeNames" for m r
  proof (cases "map_of (dataMap st) (currentCategory st)")
    case None
    with ni assms(1,2) show ?thesis by (simp add: storeMetric_new)
  next
    case (Some obj)
    with assms(1,2) show ?thesis by (simp add: storeMetric_existing)
  qed
  show ?thesis
    using assms store
    by (auto simp: processLine_def valueMatch_def Let_def split: option.splits prod.splits)
qed

lemma parseLines_plain:
  assumes "realmLog st = []" and "currentCategory st \<notin> set objectPrototypeNames"
    and "\<forall>line \<in> set ls. headerCategory (trim line) \<notin> set objectPrototypeNames"
  shows "\<exists>st'. parseLines st ls = Inr st' \<and> realmLog st' = []"
  using assms
proof (induction ls arbitrary: st)
  case Nil
  then show ?case by simp
next
  case (Cons l ls)
  from Cons.prems obtain st1 where s1: "processLine st l = Inr st1" "realmLog st1 = []"
    "currentCategory st1 \<notin> set objectPrototypeNames"
    using processLine_plain [of st l] by auto
  from Cons.IH [OF s1(2,3)] Cons.prems(3) s1(1) show ?case by simp
qed

lemma parseVngText_plain:
  assumes "\<forall>line \<in> set (splitStr s ''\<newline>''). headerCategory (trim line) \<notin> set objectPrototypeNames"
  shows "\<exists>dm. parseVngText (Str s) = Inr (dm, [])"
proof (cases "s = []")
  case True
  then show ?thesis by (simp add: parseVngText_def parseVngTextIn_def)
next
  case False
  have "''General'' \<notin> set objectPrototypeNames" by (simp add: objectPrototypeNames_def)
  with parseLines_plain [of "\<lparr>dataMap = [], currentCategory = ''General'', realmLog = []\<rparr>"
      "splitStr s ''\<newline>''"] assms
  obtain st' where "parseLines \<lparr>dataMap = [], currentCategory = ''General'', realmLog = []\<rparr>
      (splitStr s ''\<newline>'') = Inr st'" "realmLog st' = []"
    by auto
  with False show ?thesis by (simp add: parseVngText_def parseVngTextIn_def)
qed

section \<open>The claims about the parser\<close>

text \<open>
  Claim C3. A line that matches the value pattern and whose numeric token is a number
  stores, under the current category, the reading made of that number and of whether
  the trimmed line ends with the marker \<open>| FLAG\<close>; the metric name is the text before
  the first colon, trimmed, with a trailing parenthesized suffix removed, and trimmed
  again. With the current category \<open>Saccades\<close> the line
  \<open>Latency (ms): 123.4 | FLAG\<close> gives exactly \<open>{Saccades: {Latency: {123.4, true}}}\<close>.
\<close>

theorem value_line_reading:
  "processLine \<lparr>dataMap = [], currentCategory = ''Saccades'', realmLog = []\<rparr>
       ''Latency (ms): 123.4 | FLAG''
     = Inr \<lparr>dataMap = [(''Saccades'',
              \<lparr>props = [(''Latency'', \<lparr>rvalue = Number (Num 123.4), isFlagged = True\<rparr>)],
               protoLink = None\<rparr>)],
            currentCategory = ''Saccades'', realmLog = []\<rparr>
   \<and> parseVngText (Str ''Saccades:\<newline>Latency (ms): 123.4 | FLAG'')
     = Inr ([(''Saccades'',
              \<lparr>props = [(''Latency'', \<lparr>rvalue = Number (Num 123.4), isFlagged = True\<rparr>)],
               protoLink = None\<rparr>)], [])
   \<and> (exec valueRegex (trim line) = Some (j, caps) \<and> map_of caps 1 = Some tok
        \<and> parseFloat tok = Num v \<longrightarrow>
      processLine st line =
        storeMetric st
          (trim (removeMatch parenRegex (trim (takeWhile (\<lambda>c. c \<noteq> CHR '':'') (trim line)))))
          \<lparr>rvalue = Number (Num v), isFlagged = suffix ''| FLAG'' (trim line)\<rparr>)
   \<and> (CHR ''('' \<notin> set p \<and> (\<forall>c \<in> set w. isSpace c) \<and> b \<noteq> [] \<and> CHR '')'' \<notin> set b \<longrightarrow>
      removeMatch parenRegex (p @ w @ ''('' @ b @ '')'') = trimEnd p)
   \<and> (s = [] \<or> last s \<noteq> CHR '')'' \<longrightarrow> removeMatch parenRegex s = s)
   \<and> (\<not> inheritedName (realmLog st) (currentCategory st) \<and> m \<noteq> ''__proto__'' \<longrightarrow>
      (\<exists>st' obj. storeMetric st m r = Inr st'
         \<and> map_of (dataMap st') (currentCategory st) = Some obj
         \<and> map_of (props obj) m = Some r
         \<and> currentCategory st' = currentCategory st \<and> realmLog st' = realmLog st))"
proof -
  have a: "processLine \<lparr>dataMap = [], currentCategory = ''Saccades'', realmLog = []\<rparr>
       ''Latency (ms): 123.4 | FLAG''
     = Inr \<lparr>dataMap = [(''Saccades'',
              \<lparr>props = [(''Latency'', \<lparr>rvalue = Number (Num 123.4), isFlagged = True\<rparr>)],
               protoLink = None\<rparr>)],
            currentCategory = ''Saccades'', realmLog = []\<rparr>"
    by code_simp
  have b: "parseVngText (Str ''Saccades:\<newline>Latency (ms): 123.4 | FLAG'')
     = Inr ([(''Saccades'',
              \<lparr>props = [(''Latency'', \<lparr>rvalue = Number (Num 123.4), isFlagged = True\<rparr>)],
               protoLink = None\<rparr>)], [])"
    by code_simp
  have c: "processLine st line =
        storeMetric st
          (trim (removeMatch parenRegex (trim (takeWhile (\<lambda>c. c \<noteq> CHR '':'') (trim line)))))
          \<lparr>rvalue = Number (Num v), isFlagged = suffix ''| FLAG'' (trim line)\<rparr>"
    if "exec valueRegex (trim line) = Some (j, caps)" "map_of caps 1 = Some tok"
      "parseFloat tok = Num v"
    using processLine_value [OF that(1,2), of st] that(3) by simp
  show ?thesis
    using a b c removeMatch_paren_suffix [of p w b] removeMatch_paren_none [of s]
      storeMetric_own [of st m r]
    by blast
qed


theorem value_line_reading_witness:
  "processLine \<lparr>dataMap = [], currentCategory = ''General'', realmLog = []\<rparr> ''  Gain (deg/s): -0.5 %  ''
     = storeMetric \<lparr>dataMap = [], currentCategory = ''General'', realmLog = []\<rparr> ''Gain''
         \<lparr>rvalue = Number (Num (- 0.5)), isFlagged = False\<rparr>
   \<and> removeMatch parenRegex ''Gain (deg/s)'' = ''Gain''
   \<and> removeMatch parenRegex ''Gain'' = ''Gain''
   \<and> (\<exists>st' obj. storeMetric \<lparr>dataMap = [], currentCategory = ''General'', realmLog = []\<rparr> ''Gain''
            \<lparr>rvalue = Number (Num (- 0.5)), isFlagged = False\<rparr> = Inr st'
         \<and> map_of (dataMap st') ''General'' = Some obj
         \<and> map_of (props obj) ''Gain'' = Some \<lparr>rvalue = Number (Num (- 0.5)), isFlagged = False\<rparr>
         \<and> currentCategory st' = ''General'' \<and> realmLog st' = [])"
proof -
  have h1: "exec valueRegex (trim ''  Gain (deg/s): -0.5 %  '') = Some (12, [(1, ''-0.5'')])"
    by code_simp
  have h2: "parseFloat ''-0.5'' = Num (- 0.5)" by code_simp
  have h3: "trim (removeMatch parenRegex (trim (takeWhile (\<lambda>c. c \<noteq> CHR '':'')
      (trim ''  Gain (deg/s): -0.5 %  '')))) = ''Gain''"
    by code_simp
  have h4: "suffix ''| FLAG'' (trim ''  Gain (deg/s): -0.5 %  '') = False" by code_simp
  have h5: "\<not> inheritedName [] ''General''" by code_simp
  have h6: "trimEnd ''Gain'' = ''Gain''" by code_simp
  have h7: "isSpace CHR '' ''" by code_simp
  show ?thesis
    using value_line_reading [where line = "''  Gain (deg/s): -0.5 %  ''" and j = 12
        and caps = "[(1, ''-0.5'')]" and tok = "''-0.5''" and v = "- 0.5"
        and st = "\<lparr>dataMap = [], currentCategory = ''General'', realmLog = []\<rparr>"
        and p = "''Gain''" and w = "'' ''" and b = "''deg/s''" and s = "''Gain''"
        and m = "''Gain''" and r = "\<lparr>rvalue = Number (Num (- 0.5)), isFlagged = False\<rparr>"]
    by (simp add: h1 h2 h3 h4 h5 h6 h7)
qed

text \<open>
  Claim C4. A trimmed line that ends with a colon, does not match the value pattern and
  does not contain \<open>Summary of Flagged Findings\<close> sets the current category to the line
  without its last character, trimmed, and then without a trailing \<open> //\<close>, trimmed
  again; with the summary header the state is unchanged. The header \<open>VISUOMOTOR //:\<close>
  followed by \<open>Gain: 0.85\<close> gives the category \<open>VISUOMOTOR\<close> with the metric \<open>Gain\<close> of
  value 0.85, not flagged.
\<close>

theorem category_header:
  "(trim line = h @ '':'' \<and> exec valueRegex (trim line) = None
      \<and> \<not> includesStr (trim line) ''Summary of Flagged Findings'' \<longrightarrow>
      (\<not> suffix '' //'' (trim h) \<longrightarrow> processLine st line = Inr (st\<lparr>currentCategory := trim h\<rparr>))
      \<and> (\<forall>b. trim h = b @ '' //'' \<longrightarrow> processLine st line = Inr (st\<lparr>currentCategory := trim b\<rparr>)))
   \<and> (trim line = h @ '':'' \<and> exec valueRegex (trim line) = None
      \<and> includesStr (trim line) ''Summary of Flagged Findings'' \<longrightarrow>
      processLine st line = Inr st)
   \<and> parseVngText (Str ''VISUOMOTOR //:\<newline>Gain: 0.85'')
     = Inr ([(''VISUOMOTOR'',
              \<lparr>props = [(''Gain'', \<lparr>rvalue = Number (Num 0.85), isFlagged = False\<rparr>)],
               protoLink = None\<rparr>)], [])"
proof -
  have a: "parseVngText (Str ''VISUOMOTOR //:\<newline>Gain: 0.85'')
     = Inr ([(''VISUOMOTOR'',
              \<lparr>props = [(''Gain'', \<lparr>rvalue = Number (Num 0.85), isFlagged = False\<rparr>)],
               protoLink = None\<rparr>)], [])"
    by code_simp
  have b: "processLine st line = Inr (st\<lparr>currentCategory := trim h\<rparr>)"
    if "trim line = h @ '':''" "exec valueRegex (trim line) = None"
      "\<not> includesStr (trim line) ''Summary of Flagged Findings''" "\<not> suffix '' //'' (trim h)"
    using processLine_header [OF that(1,2), of st] that(3) headerCategory_plain [OF that(4)]
    by (simp add: that(1))
  have c: "processLine st line = Inr (st\<lparr>currentCategory := trim b\<rparr>)"
    if "trim line = h @ '':''" "exec valueRegex (trim line) = None"
      "\<not> includesStr (trim line) ''Summary of Flagged Findings''" "trim h = b @ '' //''" for b
    using processLine_header [OF that(1,2), of st] that(3) headerCategory_slashes [OF that(4)]
    by (simp add: that(1))
  have d: "processLine st line = Inr st"
    if "trim line = h @ '':''" "exec valueRegex (trim line) = None"
      "includesStr (trim line) ''Summary of Flagged Findings''"
    using processLine_header [OF that(1,2), of st] that(3) by simp
  from a b c d show ?thesis by blast
qed

theorem category_header_witness:
  "processLine \<lparr>dataMap = [], currentCategory = ''General'', realmLog = []\<rparr> '' Saccades : ''
     = Inr \<lparr>dataMap = [], currentCategory = ''Saccades'', realmLog = []\<rparr>
   \<and> processLine \<lparr>dataMap = [], currentCategory = ''General'', realmLog = []\<rparr> ''OCULOMOTOR  //:''
     = Inr \<lparr>dataMap = [], currentCategory = ''OCULOMOTOR'', realmLog = []\<rparr>
   \<and> processLine \<lparr>dataMap = [], currentCategory = ''General'', realmLog = []\<rparr>
       ''Summary of Flagged Findings:''
     = Inr \<lparr>dataMap = [], currentCategory = ''General'', realmLog = []\<rparr>"
proof -
  let ?st = "\<lparr>dataMap = [], currentCategory = ''General'', realmLog = []\<rparr>"
  have t1: "trim '' Saccades : '' = ''Saccades '' @ '':''" by code_simp
  have e1: "exec valueRegex (trim '' Saccades : '') = None" by code_simp
  have i1: "\<not> includesStr (trim '' Saccades : '') ''Summary of Flagged Findings''" by code_simp
  have s1: "\<not> suffix '' //'' (trim ''Saccades '')" by code_simp
  have r1: "trim ''Saccades '' = ''Saccades''" by code_simp
  have t2: "trim ''OCULOMOTOR  //:'' = ''OCULOMOTOR  //'' @ '':''" by code_simp
  have e2: "exec valueRegex (trim ''OCULOMOTOR  //:'') = None" by code_simp
  have i2: "\<not> includesStr (trim ''OCULOMOTOR  //:'') ''Summary of Flagged Findings''" by code_simp
  have s2: "trim ''OCULOMOTOR  //'' = ''OCULOMOTOR '' @ '' //''" by code_simp
  have r2: "trim ''OCULOMOTOR '' = ''OCULOMOTOR''" by code_simp
  have t3: "trim ''Summary of Flagged Findings:'' = ''Summary of Flagged Findings'' @ '':''"
    by code_simp
  have e3: "exec valueRegex (trim ''Summary of Flagged Findings:'') = None" by code_simp
  have i3: "includesStr (trim ''Summary of Flagged Findings:'') ''Summary of Flagged Findings''"
    by code_simp
  from category_header [of "'' Saccades : ''" "''Saccades ''" ?st] t1 e1 i1 s1 r1
  have a: "processLine ?st '' Saccades : '' = Inr (?st\<lparr>currentCategory := ''Saccades''\<rparr>)"
    by metis
  from category_header [of "''OCULOMOTOR  //:''" "''OCULOMOTOR  //''" ?st] t2 e2 i2 s2 r2
  have b: "processLine ?st ''OCULOMOTOR  //:'' = Inr (?st\<lparr>currentCategory := ''OCULOMOTOR''\<rparr>)"
    by metis
  from category_header [of "''Summary of Flagged Findings:''" "''Summary of Flagged Findings''" ?st]
    t3 e3 i3
  have c: "processLine ?st ''Summary of Flagged Findings:'' = Inr ?st"
    by metis
  from a b c show ?thesis by simp
qed

text \<open>
  Claim C10. Every reading stored in the object that \<open>parseVngText\<close> returns holds a
  number that is not \<open>NaN\<close> (and a flag that is a boolean, by its type): a line whose
  numeric token parses to \<open>NaN\<close> leaves the state as it is.
\<close>

theorem stored_values_numeric:
  "(parseVngText arg = Inr (dm, rlm) \<and> map_of dm c = Some obj \<and> map_of (props obj) m = Some r
      \<longrightarrow> (\<exists>v. rvalue r = Number (Num v)) \<and> \<not> isNaN (rvalue r))
   \<and> (exec valueRegex (trim line) = Some (j, caps) \<and> map_of caps 1 = Some tok
        \<and> parseFloat tok = NaN \<longrightarrow> processLine st line = Inr st)"
proof -
  have a: "(\<exists>v. rvalue r = Number (Num v)) \<and> \<not> isNaN (rvalue r)"
    if "parseVngText arg = Inr (dm, rlm)" "map_of dm c = Some obj" "map_of (props obj) m = Some r"
  proof -
    from that(1) have "numericMap dm"
      unfolding parseVngText_def by (rule numericMap_parseVngTextIn)
    with that(2,3) obtain v where "rvalue r = Number (Num v)"
      unfolding numericMap_def by blast
    then show ?thesis by (simp add: isNaN_def)
  qed
  have b: "processLine st line = Inr st"
    if "exec valueRegex (trim line) = Some (j, caps)" "map_of caps 1 = Some tok"
      "parseFloat tok = NaN"
    using processLine_value [OF that(1,2), of st] that(3) by simp
  from a b show ?thesis by blast
qed

theorem stored_values_numeric_witness:
  "(\<exists>v. rvalue \<lparr>rvalue = Number (Num 0.85), isFlagged = False\<rparr> = Number (Num v))
   \<and> \<not> isNaN (rvalue \<lparr>rvalue = Number (Num 0.85), isFlagged = False\<rparr>)
   \<and> processLine \<lparr>dataMap = [], currentCategory = ''General'', realmLog = []\<rparr> ''Gain: -''
     = Inr \<lparr>dataMap = [], currentCategory = ''General'', realmLog = []\<rparr>"
proof -
  let ?r = "\<lparr>rvalue = Number (Num 0.85), isFlagged = False\<rparr>"
  let ?obj = "\<lparr>props = [(''Gain'', ?r)], protoLink = None\<rparr>"
  let ?st = "\<lparr>dataMap = [], currentCategory = ''General'', realmLog = []\<rparr>"
  have p: "parseVngText (Str ''Gain: 0.85'') = Inr ([(''General'', ?obj)], [])" by code_simp
  have e: "exec valueRegex (trim ''Gain: -'') = Some (4, [(1, ''-'')])" by code_simp
  have n: "parseFloat ''-'' = NaN" by code_simp
  from stored_values_numeric [of "Str ''Gain: 0.85''" "[(''General'', ?obj)]" "[]" "''General''"
      ?obj "''Gain''" ?r "''Gain: -''" 4 "[(1, ''-'')]" "''-''" ?st] p e n
  show ?thesis by simp
qed

text \<open>
  Claim C8 fails on the code. The test \<open>currentCategory in dataMap\<close> is true for a name
  that \<open>dataMap\<close> inherits from \<open>Object.prototype\<close>, so after such a header the parser
  does not create the category: it assigns the reading to the inherited object. After
  the header \<open>__proto__:\<close> the line \<open>__proto__: 1\<close> calls the setter of \<open>__proto__\<close> on
  \<open>Object.prototype\<close>, which throws a \<open>TypeError\<close>; the line \<open>x: 1\<close> adds the
  property \<open>x\<close> to \<open>Object.prototype\<close>; after the header \<open>constructor:\<close> the line
  \<open>Gain: 0.85\<close> adds a property to the function \<open>Object\<close>, and the returned object is
  empty. A value that is not a string, and the empty string, give the empty object.
\<close>

theorem parseVngText_inherited_category:
  "parseVngText (Str ''__proto__:\<newline>__proto__: 1'') = Inl TypeError
   \<and> parseVngText (Str ''__proto__:\<newline>x: 1'')
     = Inr ([], [(ObjectPrototype, ''x'', \<lparr>rvalue = Number (Num 1), isFlagged = False\<rparr>)])
   \<and> parseVngText (Str ''constructor:\<newline>Gain: 0.85'')
     = Inr ([], [(BuiltinFunction ''constructor'', ''Gain'',
                  \<lparr>rvalue = Number (Num 0.85), isFlagged = False\<rparr>)])
   \<and> parseVngText NotAString = Inr ([], [])
   \<and> parseVngText (Str []) = Inr ([], [])"
  by code_simp

section \<open>The analyzer: what a stored series is\<close>

lemma lookupMetric_own:
  "map_of d c = Some ms \<Longrightarrow> map_of ms m = Some r \<Longrightarrow>
   lookupMetric rs d c m = Inr (Some (Prim (rvalue r), Flag (isFlagged r)))"
  by (simp add: lookupMetric_def)

lemma collect_length: "collect rs files c m = Inr ps \<Longrightarrow> length ps \<le> length files"
proof (induction files arbitrary: ps)
  case Nil
  then show ?case by simp
next
  case (Cons f fs)
  then show ?case
    by (fastforce split: sum.splits option.splits)
qed

text \<open>When \<open>collect\<close> returns as many elements as there are files, the element at
  position \<open>i\<close> is the one pushed for file \<open>i\<close>.\<close>

lemma collect_full:
  "collect rs files c m = Inr ps \<Longrightarrow> length ps = length files \<Longrightarrow> i < length files \<Longrightarrow>
   lookupMetric rs (data (files ! i)) c m = Inr (Some (ps ! i))"
proof (induction files arbitrary: ps i)
  case Nil
  then show ?case by simp
next
  case (Cons f fs)
  show ?case
  proof (cases "lookupMetric rs (data f) c m")
    case (Inl e)
    with Cons.prems show ?thesis by simp
  next
    case (Inr v)
    show ?thesis
    proof (cases v)
      case None
      with Inr Cons.prems(1) have "collect rs fs c m = Inr ps" by simp
      from collect_length [OF this] Cons.prems(2) show ?thesis by simp
    next
      case (Some p)
      with Inr Cons.prems(1) obtain ps' where ps': "collect rs fs c m = Inr ps'" "ps = p # ps'"
        by (auto split: sum.splits)
      with Cons.prems(2) have len: "length ps' = length fs" by simp
      show ?thesis
      proof (cases i)
        case 0
        with Inr Some ps' show ?thesis by simp
      next
        case (Suc k)
        with Cons.prems(3) have "k < length fs" by simp
        from Cons.IH [OF ps'(1) len this] Suc ps'(2) show ?thesis by simp
      qed
    qed
  qed
qed

text \<open>The readings of a key that every file has are collected whatever the realm.\<close>

lemma collect_own:
  assumes "list_all (\<lambda>f. hasMetric f c m) files"
  shows "\<exists>ps. collect rs files c m = Inr ps \<and> length ps = length files
     \<and> list_all (\<lambda>p. \<exists>x. fst p = Prim x) ps"
  using assms
proof (induction files)
  case Nil
  show ?case by simp
next
  case (Cons f fs)
  then obtain ps where ps: "collect rs fs c m = Inr ps" "length ps = length fs"
    "list_all (\<lambda>p. \<exists>x. fst p = Prim x) ps" by auto
  from Cons.prems obtain ms r where "map_of (data f) c = Some ms" "map_of ms m = Some r"
    by (auto simp: hasMetric_def split: option.splits)
  then have "lookupMetric rs (data f) c m = Inr (Some (Prim (rvalue r), Flag (isFlagged r)))"
    by (rule lookupMetric_own)
  with ps show ?case by simp
qed

lemma map_of_storeSeries:
  "map_of (storeSeries res c m s) c' =
     (if c' = c
      then Some (if m = ''__proto__'' then (case map_of res c of None \<Rightarrow> [] | Some ms \<Rightarrow> ms)
                 else AList.update m s (case map_of res c of None \<Rightarrow> [] | Some ms \<Rightarrow> ms))
      else map_of res c')"
  by (simp add: storeSeries_def Let_def update_conv')

lemma builtFrom_storeSeries:
  assumes "builtFrom files res" and "seriesFor files c m s"
  shows "builtFrom files (storeSeries res c m s)"
  unfolding builtFrom_def
proof (intro allI impI)
  fix c' ms' m' s'
  assume a: "map_of (storeSeries res c m s) c' = Some ms'" and b: "map_of ms' m' = Some s'"
  show "seriesFor files c' m' s'"
  proof (cases "c' = c")
    case False
    with a have "map_of res c' = Some ms'" by (simp add: map_of_storeSeries)
    with assms(1) b show ?thesis unfolding builtFrom_def by blast
  next
    case True
    show ?thesis
    proof (cases "m' = m \<and> m \<noteq> ''__proto__''")
      case True
      with a b \<open>c' = c\<close> have "s' = s" by (auto simp: map_of_storeSeries update_conv')
      with assms(2) True \<open>c' = c\<close> show ?thesis by simp
    next
      case False
      with a b \<open>c' = c\<close> obtain ms where "map_of res c = Some ms" "map_of ms m' = Some s'"
        by (auto simp: map_of_storeSeries update_conv' split: option.splits if_splits)
      with assms(1) \<open>c' = c\<close> show ?thesis unfolding builtFrom_def by blast
    qed
  qed
qed

lemma builtFrom_analysePair:
  assumes "builtFrom files res" and "analysePair files (res, rs) pair = Inr (res', rs')"
  shows "builtFrom files res'"
proof -
  obtain c m where d: "decodePair pair = (c, m)" by (cases "decodePair pair")
  show ?thesis
  proof (cases "collect rs files c m")
    case (Inl e)
    with assms(2) d show ?thesis by (simp add: analysePair_def split: option.splits)
  next
    case (Inr ps)
    show ?thesis
    proof (cases "length ps = length files")
      case False
      with assms Inr d show ?thesis by (simp add: analysePair_def split: option.splits)
    next
      case True
      let ?s = "makeSeries (length files) (map fst ps) (map snd ps)"
      have "seriesFor files c m ?s"
        unfolding seriesFor_def using Inr True by blast
      with assms(1) have "builtFrom files (storeSeries res c m ?s)"
        by (rule builtFrom_storeSeries)
      moreover from assms(2) Inr d True have "res' = storeSeries res c m ?s \<or> res' = res"
        by (auto simp: analysePair_def Let_def split: if_splits option.splits sum.splits)
      ultimately show ?thesis using assms(1) by auto
    qed
  qed
qed

lemma builtFrom_analysePairs:
  "builtFrom files (fst st) \<Longrightarrow> analysePairs files st pairs = Inr st' \<Longrightarrow>
   builtFrom files (fst st')"
proof (induction pairs arbitrary: st)
  case Nil
  then show ?case by simp
next
  case (Cons p ps)
  from Cons.prems(2) obtain st1 where s1: "analysePair files st p = Inr st1"
    and s2: "analysePairs files st1 ps = Inr st'"
    by (auto split: sum.splits)
  from Cons.prems(1) s1 have "builtFrom files (fst st1)"
    using builtFrom_analysePair [of files "fst st" "snd st" p "fst st1" "snd st1"] by simp
  from Cons.IH [OF this s2] show ?case .
qed

lemma builtFrom_runAnalysis:
  assumes "runAnalysis (Array files) = Inr res"
  shows "builtFrom files res"
proof (cases files)
  case Nil
  with assms show ?thesis by (simp add: runAnalysis_def builtFrom_def)
next
  case (Cons f fs)
  with assms obtain rs where
    "analysePairs files ([], freshRealm) (intersectPairs (pairKeys (data f)) fs) = Inr (res, rs)"
    by (auto simp: runAnalysis_def split: sum.splits)
  from builtFrom_analysePairs [OF _ this] show ?thesis by (simp add: builtFrom_def)
qed

lemma runAnalysis_series:
  assumes "runAnalysis (Array files) = Inr res" and "map_of res c = Some ms"
    and "map_of ms m = Some s"
  obtains rs ps where "collect rs files c m = Inr ps" and "length ps = length files"
    and "s = makeSeries (length files) (map fst ps) (map snd ps)"
  using builtFrom_runAnalysis [OF assms(1)] assms(2,3)
  unfolding builtFrom_def seriesFor_def by blast

text \<open>The values and the flags of a series are as many as the files.\<close>

lemma series_lengths:
  assumes "runAnalysis (Array files) = Inr res" and "map_of res c = Some ms"
    and "map_of ms m = Some s"
  shows "length (svalues s) = length files \<and> length (sflags s) = length files"
proof -
  from assms obtain rs ps where "length ps = length files"
    "s = makeSeries (length files) (map fst ps) (map snd ps)"
    by (rule runAnalysis_series)
  then show ?thesis by (simp add: makeSeries_def)
qed

section \<open>The analyzer: prototype chains\<close>

text \<open>The analyzer keeps the realm in a state in which every prototype chain has at
  most three objects, so \<open>protoChain\<close> lists the whole chain, up to the object that has
  no prototype.\<close>

lemma realmOk_fresh: "realmOk freshRealm"
  by (simp add: realmOk_def freshRealm_def)

lemma inheritedProperty_assignable:
  "inheritedProperty rs c = Some b \<Longrightarrow> assignable rs b"
  by (fastforce simp: inheritedProperty_def ownProperty_def initialProperty_def assignable_def
      split: option.splits if_splits property.splits)

lemma chainFrom_ok:
  assumes "realmOk rs"
  shows "chainFrom (Suc (Suc (Suc n))) rs b = chainFrom 3 rs b"
  using assms
  by (auto simp: realmOk_def prototypeOf_def numeral_3_eq_3 split: option.splits robject.splits)

lemma protoChain_complete:
  assumes "realmOk rs"
  shows "prototypeOf rs (last (protoChain rs b)) = None"
proof -
  have "protoChain rs b = chainFrom 3 rs b"
    using chainFrom_ok [OF assms, of "length (seriesObjs rs)" b]
    by (simp add: protoChain_def numeral_3_eq_3)
  then show ?thesis using assms
    by (auto simp: realmOk_def prototypeOf_def numeral_3_eq_3 split: option.splits robject.splits)
qed

lemma realmOk_stored:
  assumes "realmOk rs"
  shows "realmOk (rs\<lparr>assigned := AList.update x (length (seriesObjs rs)) (assigned rs),
      seriesObjs := seriesObjs rs @ [s]\<rparr>)"
proof -
  from assms have np: "map_of (newProto rs) ObjectProto = None"
      "map_of (newProto rs) FunctionProto = None"
    and pr: "\<And>b j. map_of (newProto rs) b = Some j \<Longrightarrow>
        j < length (seriesObjs rs) \<and> map_of (newProto rs) (SeriesObj j) = None
        \<and> (\<forall>y. map_of (assigned rs) y \<noteq> Some j)"
    and asg: "\<And>y j. map_of (assigned rs) y = Some j \<Longrightarrow> j < length (seriesObjs rs)"
    and keys: "\<And>k j. map_of (newProto rs) (SeriesObj k) = Some j \<Longrightarrow> k < length (seriesObjs rs)"
    unfolding realmOk_def by blast+
  show ?thesis
    unfolding realmOk_def
  proof (intro conjI allI impI)
    fix b j y
    assume "map_of (newProto (rs\<lparr>assigned := AList.update x (length (seriesObjs rs)) (assigned rs),
      seriesObjs := seriesObjs rs @ [s]\<rparr>)) b = Some j"
    then have j: "map_of (newProto rs) b = Some j" by simp
    from pr [OF j] have "j < length (seriesObjs rs)" "map_of (assigned rs) y \<noteq> Some j" by blast+
    then show "map_of (assigned (rs\<lparr>assigned := AList.update x (length (seriesObjs rs)) (assigned rs),
      seriesObjs := seriesObjs rs @ [s]\<rparr>)) y \<noteq> Some j"
      by (simp add: update_conv')
  qed (use np pr asg keys in \<open>auto simp: update_conv' less_Suc_eq split: if_splits\<close>)
qed

lemma realmOk_newProto:
  assumes "realmOk rs" and "assignable rs b" and "b \<noteq> ObjectProto"
  shows "realmOk (rs\<lparr>newProto := AList.update b (length (seriesObjs rs)) (newProto rs),
      seriesObjs := seriesObjs rs @ [s]\<rparr>)"
proof -
  let ?L = "length (seriesObjs rs)"
  from assms(1) have np: "map_of (newProto rs) ObjectProto = None"
      "map_of (newProto rs) FunctionProto = None"
    and pr: "\<And>b j. map_of (newProto rs) b = Some j \<Longrightarrow>
        j < ?L \<and> map_of (newProto rs) (SeriesObj j) = None
        \<and> (\<forall>y. map_of (assigned rs) y \<noteq> Some j)"
    and asg: "\<And>y j. map_of (assigned rs) y = Some j \<Longrightarrow> j < ?L"
    and keys: "\<And>k j. map_of (newProto rs) (SeriesObj k) = Some j \<Longrightarrow> k < ?L"
    unfolding realmOk_def by blast+
  from assms(2,3) have bf: "b \<noteq> FunctionProto"
    and bs: "\<And>k. b = SeriesObj k \<Longrightarrow> \<exists>y. map_of (assigned rs) y = Some k"
    by (auto simp: assignable_def)
  have bL: "b \<noteq> SeriesObj ?L" using bs asg by (metis less_irrefl)
  have noL: "map_of (newProto rs) (SeriesObj ?L) = None"
    using keys by (metis less_irrefl not_Some_eq)
  have asgL: "map_of (assigned rs) y \<noteq> Some ?L" for y using asg by (metis less_irrefl)
  have notproto: "b \<noteq> SeriesObj j" if "map_of (newProto rs) b' = Some j" for b' j
    using pr [OF that] bs by blast
  show ?thesis
    unfolding realmOk_def
  proof (intro conjI allI impI)
    fix b' j
    assume "map_of (newProto (rs\<lparr>newProto := AList.update b ?L (newProto rs),
      seriesObjs := seriesObjs rs @ [s]\<rparr>)) b' = Some j"
    then have c: "(b' = b \<and> j = ?L) \<or> (b' \<noteq> b \<and> map_of (newProto rs) b' = Some j)"
      by (auto simp: update_conv' split: if_splits)
    then show "j < length (seriesObjs (rs\<lparr>newProto := AList.update b ?L (newProto rs),
      seriesObjs := seriesObjs rs @ [s]\<rparr>))"
      using pr by (auto simp: less_Suc_eq)
    from c show "map_of (newProto (rs\<lparr>newProto := AList.update b ?L (newProto rs),
      seriesObjs := seriesObjs rs @ [s]\<rparr>)) (SeriesObj j) = None"
      using bL noL notproto pr by (auto simp: update_conv')
    fix y
    from c show "map_of (assigned (rs\<lparr>newProto := AList.update b ?L (newProto rs),
      seriesObjs := seriesObjs rs @ [s]\<rparr>)) y \<noteq> Some j"
      using asgL [of y] pr by (cases y) (auto simp del: split_paired_All)
  next
    fix k j
    assume "map_of (newProto (rs\<lparr>newProto := AList.update b ?L (newProto rs),
      seriesObjs := seriesObjs rs @ [s]\<rparr>)) (SeriesObj k) = Some j"
    then have "SeriesObj k = b \<or> map_of (newProto rs) (SeriesObj k) = Some j"
      by (auto simp: update_conv' split: if_splits)
    then show "k < length (seriesObjs (rs\<lparr>newProto := AList.update b ?L (newProto rs),
      seriesObjs := seriesObjs rs @ [s]\<rparr>))"
      using bs asg keys by (fastforce simp: less_Suc_eq)
  qed (use np asg bf assms(3) in \<open>auto simp: update_conv' less_Suc_eq\<close>)
qed

lemma realmOk_assign:
  assumes "realmOk rs" and "assignable rs b" and "assign rs b k s = Inr rs'"
  shows "realmOk rs'"
proof (cases "findProperty rs b k")
  case Absent
  with assms(3) have "rs' = rs\<lparr>assigned := AList.update (b, k) (length (seriesObjs rs)) (assigned rs),
      seriesObjs := seriesObjs rs @ [s]\<rparr>" by (simp add: assign_def Let_def)
  with realmOk_stored [OF assms(1)] show ?thesis by simp
next
  case (DataProperty v w)
  show ?thesis
  proof (cases w)
    case False
    with DataProperty assms show ?thesis by (simp add: assign_def Let_def)
  next
    case True
    with DataProperty assms(3) have "rs' = rs\<lparr>assigned := AList.update (b, k) (length (seriesObjs rs)) (assigned rs),
      seriesObjs := seriesObjs rs @ [s]\<rparr>" by (simp add: assign_def Let_def)
    with realmOk_stored [OF assms(1)] show ?thesis by simp
  qed
next
  case ProtoAccessor
  with assms(3) have b: "b \<noteq> ObjectProto"
    and rs': "rs' = rs\<lparr>newProto := AList.update b (length (seriesObjs rs)) (newProto rs),
      seriesObjs := seriesObjs rs @ [s]\<rparr>"
    by (auto simp: assign_def Let_def split: if_splits)
  with realmOk_newProto [OF assms(1,2) b] show ?thesis by simp
next
  case ThrowingAccessor
  with assms(3) show ?thesis by (simp add: assign_def Let_def)
qed

lemma realmOk_analysePair:
  assumes "realmOk rs" and "analysePair files (res, rs) pair = Inr (res', rs')"
  shows "realmOk rs'"
  using assms
  by (auto simp: analysePair_def Let_def split: prod.splits sum.splits if_splits option.splits
      dest!: inheritedProperty_assignable dest: realmOk_assign)

lemma realmOk_analysePairs:
  "realmOk (snd st) \<Longrightarrow> analysePairs files st pairs = Inr st' \<Longrightarrow> realmOk (snd st')"
proof (induction pairs arbitrary: st)
  case Nil
  then show ?case by simp
next
  case (Cons p ps)
  from Cons.prems(2) obtain st1 where s1: "analysePair files st p = Inr st1"
    and s2: "analysePairs files st1 ps = Inr st'"
    by (auto split: sum.splits)
  from Cons.prems(1) s1 have "realmOk (snd st1)"
    using realmOk_analysePair [of "snd st" files "fst st" p "fst st1" "snd st1"] by simp
  from Cons.IH [OF this s2] show ?case .
qed

lemma runAnalysis_chains:
  assumes "analysePairs files ([], freshRealm) pairs = Inr (res, rs)"
  shows "prototypeOf rs (last (protoChain rs b)) = None"
  using realmOk_analysePairs [OF _ assms] realmOk_fresh
  by (simp add: protoChain_complete)

section \<open>The analyzer on names without colons\<close>

lemma splitAcc_no_colon:
  "CHR '':'' \<notin> set s \<Longrightarrow> splitAcc ''::'' acc s = [rev acc @ s]"
  by (induction s arbitrary: acc) auto

lemma splitAcc_first_separator:
  "CHR '':'' \<notin> set c \<Longrightarrow>
   splitAcc ''::'' acc (c @ ''::'' @ m) = (rev acc @ c) # splitAcc ''::'' [] m"
  by (induction c arbitrary: acc) auto

lemma decodePair_encode:
  assumes "CHR '':'' \<notin> set c" and "CHR '':'' \<notin> set m"
  shows "decodePair (c @ ''::'' @ m) = (c, m)"
proof -
  have "splitStr (c @ ''::'' @ m) ''::'' = [c, m]"
    unfolding splitStr_def splitAcc_first_separator [OF assms(1)] splitAcc_no_colon [OF assms(2)]
    by simp
  then show ?thesis unfolding decodePair_def by simp
qed

lemma hasMetric_iff:
  "hasMetric f c m \<longleftrightarrow> (\<exists>ms r. map_of (data f) c = Some ms \<and> map_of ms m = Some r)"
  by (auto simp: hasMetric_def split: option.splits)

lemma set_foldl_setAdd: "set (foldl setAdd acc xs) = set acc \<union> set xs"
  by (induction xs arbitrary: acc) (auto simp: setAdd_def)

lemma map_of_eq_Some_fst: "(\<exists>v. map_of al k = Some v) \<longleftrightarrow> k \<in> fst ` set al"
  by (metis map_of_eq_None_iff not_Some_eq)

lemma set_pairKeys:
  "set (pairKeys (data f)) = {c @ ''::'' @ m | c m. hasMetric f c m}"
proof -
  let ?d = "data f"
  have "p \<in> set (pairKeys ?d) \<longleftrightarrow> (\<exists>c m. p = c @ ''::'' @ m \<and> hasMetric f c m)" for p
  proof
    assume "p \<in> set (pairKeys ?d)"
    then obtain c where c: "c \<in> fst ` set ?d"
      and p: "p \<in> set (case map_of ?d c of None \<Rightarrow> []
            | Some ms \<Rightarrow> map (\<lambda>m. c @ ''::'' @ m) (map fst ms))"
      by (auto simp: pairKeys_def set_foldl_setAdd)
    from p obtain ms where ms: "map_of ?d c = Some ms" by (cases "map_of ?d c") auto
    with p obtain m where "map_of ?d c = Some ms" "m \<in> fst ` set ms" "p = c @ ''::'' @ m"
      by auto
    moreover from this(2) obtain r where "map_of ms m = Some r"
      using map_of_eq_Some_fst [of ms m] by blast
    ultimately show "\<exists>c m. p = c @ ''::'' @ m \<and> hasMetric f c m"
      unfolding hasMetric_iff by blast
  next
    assume "\<exists>c m. p = c @ ''::'' @ m \<and> hasMetric f c m"
    then obtain c m ms r where p: "p = c @ ''::'' @ m"
      and c: "map_of ?d c = Some ms" and m: "map_of ms m = Some r"
      unfolding hasMetric_iff by blast
    from c have "c \<in> fst ` set ?d" using map_of_eq_Some_fst [of ?d c] by blast
    moreover from m have "m \<in> fst ` set ms" using map_of_eq_Some_fst [of ms m] by blast
    ultimately show "p \<in> set (pairKeys ?d)"
      using c p by (force simp: pairKeys_def set_foldl_setAdd)
  qed
  then show ?thesis by blast
qed

lemma set_intersectPairs:
  "set (intersectPairs ps fs) = {p \<in> set ps. \<forall>f \<in> set fs. p \<in> set (pairKeys (data f))}"
  by (induction fs arbitrary: ps) auto

lemma encoded_key_in_file:
  assumes "colonFree f" and "CHR '':'' \<notin> set c" and "CHR '':'' \<notin> set m"
  shows "c @ ''::'' @ m \<in> set (pairKeys (data f)) \<longleftrightarrow> hasMetric f c m"
proof
  assume "c @ ''::'' @ m \<in> set (pairKeys (data f))"
  then obtain c' m' where e: "c @ ''::'' @ m = c' @ ''::'' @ m'" and h: "hasMetric f c' m'"
    unfolding set_pairKeys by blast
  from h assms(1) have "CHR '':'' \<notin> set c'" "CHR '':'' \<notin> set m'"
    unfolding hasMetric_iff colonFree_def by blast+
  then have "decodePair (c' @ ''::'' @ m') = (c', m')" by (rule decodePair_encode)
  moreover have "decodePair (c @ ''::'' @ m) = (c, m)" using assms(2,3) by (rule decodePair_encode)
  ultimately have "c = c'" "m = m'" using e by simp_all
  with h show "hasMetric f c m" by simp
next
  assume "hasMetric f c m"
  then show "c @ ''::'' @ m \<in> set (pairKeys (data f))" unfolding set_pairKeys by blast
qed

text \<open>In a fresh realm an ordinary object inherits the names of \<open>Object.prototype\<close>
  only.\<close>

lemma inheritedProperty_fresh:
  "k \<notin> set objectPrototypeNames \<Longrightarrow> inheritedProperty freshRealm k = None"
  by (auto simp: inheritedProperty_def ownProperty_def initialProperty_def freshRealm_def
      objectPrototypeNames_def)

lemma inheritedIn_fresh:
  "k \<notin> set objectPrototypeNames \<Longrightarrow> \<not> inheritedIn freshRealm k"
  by (auto simp: inheritedIn_def ownProperty_def initialProperty_def freshRealm_def
      objectPrototypeNames_def)

lemma no_return_fresh: "inheritedProperty freshRealm ''return'' = None"
  by (simp add: inheritedProperty_fresh objectPrototypeNames_def)

lemma lookupMetric_plain:
  assumes "c \<notin> set objectPrototypeNames" and "m \<notin> set objectPrototypeNames"
  shows "lookupMetric freshRealm d c m =
     Inr (case map_of d c of
            None \<Rightarrow> None
          | Some ms \<Rightarrow> map_option (\<lambda>r. (Prim (rvalue r), Flag (isFlagged r))) (map_of ms m))"
  using assms
  by (simp add: lookupMetric_def inheritedProperty_fresh split: option.splits)

text \<open>For such names the elements collected are readings, and they are as many as
  the files exactly when every file has the key.\<close>

lemma collect_plain:
  assumes "c \<notin> set objectPrototypeNames" and "m \<notin> set objectPrototypeNames"
  shows "\<exists>ps. collect freshRealm files c m = Inr ps
     \<and> (length ps = length files \<longleftrightarrow> list_all (\<lambda>f. hasMetric f c m) files)
     \<and> list_all (\<lambda>p. \<exists>x. fst p = Prim x) ps"
proof (induction files)
  case Nil
  show ?case by simp
next
  case (Cons f fs)
  then obtain ps where ps: "collect freshRealm fs c m = Inr ps"
    "length ps = length fs \<longleftrightarrow> list_all (\<lambda>f. hasMetric f c m) fs"
    "list_all (\<lambda>p. \<exists>x. fst p = Prim x) ps" by blast
  from collect_length [OF ps(1)] have le: "length ps \<le> length fs" .
  show ?case
  proof (cases "hasMetric f c m")
    case True
    then obtain ms r where "map_of (data f) c = Some ms" "map_of ms m = Some r"
      unfolding hasMetric_iff by blast
    then have "lookupMetric freshRealm (data f) c m
        = Inr (Some (Prim (rvalue r), Flag (isFlagged r)))"
      by (rule lookupMetric_own)
    with ps True show ?thesis by simp
  next
    case False
    then have "lookupMetric freshRealm (data f) c m = Inr None"
      using assms by (auto simp: lookupMetric_plain hasMetric_def split: option.splits)
    with ps False le show ?thesis by simp
  qed
qed

lemma convertible_Prim: "list_all (\<lambda>p. \<exists>x. fst p = Prim x) ps \<Longrightarrow>
    list_all (convertible rs) (map fst ps)"
  by (induction ps) (auto simp: convertible_def)

lemma resultKeys_storeSeries:
  "resultKeys (storeSeries res c m s) =
     (if m = ''__proto__'' then resultKeys res else insert (c, m) (resultKeys res))"
  by (auto simp: resultKeys_def map_of_storeSeries update_conv' split: option.splits if_splits)

text \<open>One round of the loop adds at most the decoded key, and only if the test of
  line 71 was truthy for every file.\<close>

lemma analysePair_cases:
  assumes "analysePair files (res, rs) pair = Inr (res', rs')" and "decodePair pair = (c, m)"
  shows "res' = res \<or> (\<exists>ps. collect rs files c m = Inr ps \<and> length ps = length files
      \<and> res' = storeSeries res c m (makeSeries (length files) (map fst ps) (map snd ps)))"
  using assms
  by (auto simp: analysePair_def Let_def split: if_splits option.splits sum.splits)

lemma resultKeys_analysePair_subset:
  assumes "analysePair files (res, rs) pair = Inr (res', rs')"
  shows "resultKeys res' \<subseteq> insert (decodePair pair) (resultKeys res)"
proof -
  obtain c m where d: "decodePair pair = (c, m)" by (cases "decodePair pair")
  from analysePair_cases [OF assms d] d show ?thesis
    by (auto simp: resultKeys_storeSeries split: if_splits)
qed

lemma resultKeys_analysePairs_subset:
  "analysePairs files st pairs = Inr st' \<Longrightarrow>
   resultKeys (fst st') \<subseteq> resultKeys (fst st) \<union> decodePair ` set pairs"
proof (induction pairs arbitrary: st)
  case Nil
  then show ?case by simp
next
  case (Cons p ps)
  from Cons.prems obtain st1 where s1: "analysePair files st p = Inr st1"
    and s2: "analysePairs files st1 ps = Inr st'"
    by (auto split: sum.splits)
  from s1 have "resultKeys (fst st1) \<subseteq> insert (decodePair p) (resultKeys (fst st))"
    using resultKeys_analysePair_subset [of files "fst st" "snd st" p "fst st1" "snd st1"]
    by simp
  with Cons.IH [OF s2] show ?case by auto
qed

text \<open>A pair whose names are no property names of \<open>Object.prototype\<close> is handled
  without an exception and without touching the realm, and its key is added exactly
  when every file has it.\<close>

lemma analysePair_plain:
  assumes "decodePair pair = (c, m)" and "c \<notin> set objectPrototypeNames"
    and "m \<notin> set objectPrototypeNames"
  shows "\<exists>res'. analysePair files (res, freshRealm) pair = Inr (res', freshRealm)
     \<and> resultKeys res' =
         (if list_all (\<lambda>f. hasMetric f c m) files then insert (c, m) (resultKeys res)
          else resultKeys res)"
proof -
  from collect_plain [OF assms(2,3)] obtain ps where ps: "collect freshRealm files c m = Inr ps"
    "length ps = length files \<longleftrightarrow> list_all (\<lambda>f. hasMetric f c m) files"
    "list_all (\<lambda>p. \<exists>x. fst p = Prim x) ps" by blast
  have m: "m \<noteq> ''__proto__''" using assms(3) by (auto simp: objectPrototypeNames_def)
  show ?thesis
  proof (cases "length ps = length files")
    case False
    with ps assms(1) show ?thesis by (simp add: analysePair_def no_return_fresh)
  next
    case True
    with ps assms(1) convertible_Prim [OF ps(3), of freshRealm] inheritedIn_fresh [OF assms(2)] m
    show ?thesis
      by (simp add: analysePair_def Let_def resultKeys_storeSeries no_return_fresh
          split: option.splits)
  qed
qed

lemma analysePairs_plain:
  assumes "\<And>p. p \<in> set pairs \<Longrightarrow> fst (decodePair p) \<notin> set objectPrototypeNames
      \<and> snd (decodePair p) \<notin> set objectPrototypeNames
      \<and> list_all (\<lambda>f. hasMetric f (fst (decodePair p)) (snd (decodePair p))) files"
  shows "\<exists>res'. analysePairs files (res, freshRealm) pairs = Inr (res', freshRealm)
     \<and> resultKeys res' = resultKeys res \<union> decodePair ` set pairs"
  using assms
proof (induction pairs arbitrary: res)
  case Nil
  show ?case by simp
next
  case (Cons p ps)
  obtain c m where d: "decodePair p = (c, m)" by (cases "decodePair p")
  with Cons.prems [of p] have pl: "c \<notin> set objectPrototypeNames" "m \<notin> set objectPrototypeNames"
    and all: "list_all (\<lambda>f. hasMetric f c m) files"
    by simp_all
  from analysePair_plain [OF d pl, of files res] all obtain res1 where
    r1: "analysePair files (res, freshRealm) p = Inr (res1, freshRealm)"
    "resultKeys res1 = insert (c, m) (resultKeys res)"
    by auto
  from Cons.IH [of res1] Cons.prems obtain res' where
    "analysePairs files (res1, freshRealm) ps = Inr (res', freshRealm)"
    "resultKeys res' = resultKeys res1 \<union> decodePair ` set ps" by auto
  with r1 d show ?case by auto
qed

text \<open>The pairs that the first loop keeps, for files whose names contain no colon:
  the joined keys of the keys that every file has, each decoded to its key again.\<close>

lemma commonPairs_colonFree:
  assumes "\<forall>g \<in> set (f # fs). colonFree g"
  shows "p \<in> set (intersectPairs (pairKeys (data f)) fs) \<longleftrightarrow>
      (\<exists>c m. p = c @ ''::'' @ m \<and> decodePair p = (c, m)
         \<and> list_all (\<lambda>g. hasMetric g c m) (f # fs))"
proof
  assume "p \<in> set (intersectPairs (pairKeys (data f)) fs)"
  then obtain c m where p: "p = c @ ''::'' @ m" and h: "hasMetric f c m"
    and rest: "\<forall>g \<in> set fs. p \<in> set (pairKeys (data g))"
    unfolding set_intersectPairs set_pairKeys by blast
  from assms have "colonFree f" by simp
  with h have cm: "CHR '':'' \<notin> set c" "CHR '':'' \<notin> set m"
    unfolding hasMetric_iff colonFree_def by blast+
  have "hasMetric g c m" if "g \<in> set fs" for g
    using encoded_key_in_file [OF _ cm, of g] rest that assms p by auto
  with h have "list_all (\<lambda>g. hasMetric g c m) (f # fs)" by (simp add: list_all_iff)
  moreover from cm have "decodePair p = (c, m)" unfolding p by (rule decodePair_encode)
  ultimately show "\<exists>c m. p = c @ ''::'' @ m \<and> decodePair p = (c, m)
         \<and> list_all (\<lambda>g. hasMetric g c m) (f # fs)" using p by blast
next
  assume "\<exists>c m. p = c @ ''::'' @ m \<and> decodePair p = (c, m)
         \<and> list_all (\<lambda>g. hasMetric g c m) (f # fs)"
  then obtain c m where p: "p = c @ ''::'' @ m"
    and all: "list_all (\<lambda>g. hasMetric g c m) (f # fs)" by blast
  from all have h: "hasMetric f c m" and hs: "\<forall>g \<in> set fs. hasMetric g c m"
    by (simp_all add: list_all_iff)
  from hs p have "\<forall>g \<in> set fs. p \<in> set (pairKeys (data g))" unfolding set_pairKeys by blast
  moreover from h p have "p \<in> set (pairKeys (data f))" unfolding set_pairKeys by blast
  ultimately show "p \<in> set (intersectPairs (pairKeys (data f)) fs)"
    unfolding set_intersectPairs by blast
qed

lemma decoded_commonPairs:
  assumes "\<forall>g \<in> set (f # fs). colonFree g"
  shows "decodePair ` set (intersectPairs (pairKeys (data f)) fs) = commonKeys (f # fs)"
proof (intro set_eqI iffI)
  fix k assume "k \<in> decodePair ` set (intersectPairs (pairKeys (data f)) fs)"
  then obtain p where "p \<in> set (intersectPairs (pairKeys (data f)) fs)" "k = decodePair p"
    by blast
  with commonPairs_colonFree [OF assms, of p] show "k \<in> commonKeys (f # fs)"
    by (auto simp: commonKeys_def)
next
  fix k assume k: "k \<in> commonKeys (f # fs)"
  obtain c m where cm: "k = (c, m)" by (cases k)
  with k have all: "list_all (\<lambda>g. hasMetric g c m) (f # fs)" by (simp add: commonKeys_def)
  then have "hasMetric f c m" by simp
  moreover from assms have "colonFree f" by simp
  ultimately have "CHR '':'' \<notin> set c" "CHR '':'' \<notin> set m"
    unfolding hasMetric_iff colonFree_def by blast+
  then have "decodePair (c @ ''::'' @ m) = (c, m)" by (rule decodePair_encode)
  with all commonPairs_colonFree [OF assms, of "c @ ''::'' @ m"]
  show "k \<in> decodePair ` set (intersectPairs (pairKeys (data f)) fs)"
    using cm by force
qed

text \<open>For files whose names contain no colon, every key of the result is a key that
  every file has.\<close>

lemma runAnalysis_keys_colonFree:
  assumes "\<forall>f \<in> set files. colonFree f" and "runAnalysis (Array files) = Inr res"
  shows "resultKeys res \<subseteq> commonKeys files"
proof (cases files)
  case Nil
  with assms(2) show ?thesis by (simp add: runAnalysis_def resultKeys_def)
next
  case (Cons f fs)
  with assms(2) obtain rs where
    "analysePairs files ([], freshRealm) (intersectPairs (pairKeys (data f)) fs) = Inr (res, rs)"
    by (auto simp: runAnalysis_def split: sum.splits)
  from resultKeys_analysePairs_subset [OF this]
  have "resultKeys res \<subseteq> resultKeys [] \<union> decodePair ` set (intersectPairs (pairKeys (data f)) fs)"
    by simp
  moreover have "resultKeys [] = {}" by (simp add: resultKeys_def)
  ultimately show ?thesis using decoded_commonPairs [of f fs] assms(1) Cons by simp
qed

text \<open>
  For such files the entries of a series at position \<open>i\<close> are the value and the flag
  that file \<open>i\<close> has for the category and the metric of the series.
\<close>

lemma series_entries_colonFree:
  assumes "\<forall>f \<in> set files. colonFree f" and "runAnalysis (Array files) = Inr res"
    and "map_of res c = Some ms" and "map_of ms m = Some s" and "i < length files"
  shows "\<exists>fms r. map_of (data (files ! i)) c = Some fms \<and> map_of fms m = Some r
     \<and> svalues s ! i = Prim (rvalue r) \<and> sflags s ! i = Flag (isFlagged r)"
proof -
  from assms(3,4) have "(c, m) \<in> resultKeys res" by (simp add: resultKeys_def)
  with runAnalysis_keys_colonFree [OF assms(1,2)] have "(c, m) \<in> commonKeys files" by blast
  with assms(5) have "hasMetric (files ! i) c m"
    by (simp add: commonKeys_def list_all_length)
  then obtain fms r where f: "map_of (data (files ! i)) c = Some fms" "map_of fms m = Some r"
    unfolding hasMetric_iff by blast
  from assms(2,3,4) obtain rs ps where ps: "collect rs files c m = Inr ps"
    "length ps = length files" "s = makeSeries (length files) (map fst ps) (map snd ps)"
    by (rule runAnalysis_series)
  from collect_full [OF ps(1,2) assms(5)] lookupMetric_own [OF f, of rs]
  have "ps ! i = (Prim (rvalue r), Flag (isFlagged r))" by simp
  with ps(2,3) assms(5) have "svalues s ! i = Prim (rvalue r)" "sflags s ! i = Flag (isFlagged r)"
    by (simp_all add: makeSeries_def)
  with f show ?thesis by blast
qed

text \<open>
  For files whose names contain no colon and are no property names of
  \<open>Object.prototype\<close>, the analyzer returns a result, and its keys are exactly the keys
  that every file has.
\<close>

lemma runAnalysis_keys_plain:
  assumes "\<forall>f \<in> set files. colonFree f \<and> plainNames f"
  shows "\<exists>res. runAnalysis (Array files) = Inr res \<and> resultKeys res = commonKeys files"
proof (cases files)
  case Nil
  then show ?thesis by (simp add: runAnalysis_def resultKeys_def commonKeys_def)
next
  case (Cons f fs)
  let ?pairs = "intersectPairs (pairKeys (data f)) fs"
  from assms Cons have cf: "\<forall>g \<in> set (f # fs). colonFree g" by simp
  have decoded: "fst (decodePair p) \<notin> set objectPrototypeNames
      \<and> snd (decodePair p) \<notin> set objectPrototypeNames
      \<and> list_all (\<lambda>g. hasMetric g (fst (decodePair p)) (snd (decodePair p))) files"
    if "p \<in> set ?pairs" for p
  proof -
    from that commonPairs_colonFree [OF cf, of p] obtain c m where d: "decodePair p = (c, m)"
      and all: "list_all (\<lambda>g. hasMetric g c m) (f # fs)" by blast
    from all have "hasMetric f c m" by simp
    then obtain ms r where h: "map_of (data f) c = Some ms" "map_of ms m = Some r"
      unfolding hasMetric_iff by blast
    from assms Cons have "plainNames f" by simp
    with h have "c \<notin> set objectPrototypeNames" "m \<notin> set objectPrototypeNames"
      unfolding plainNames_def by blast+
    with d all Cons show ?thesis by simp
  qed
  from analysePairs_plain [of ?pairs files "[]"] decoded obtain res where
    res: "analysePairs files ([], freshRealm) ?pairs = Inr (res, freshRealm)"
    "resultKeys res = resultKeys [] \<union> decodePair ` set ?pairs" by blast
  have "resultKeys [] = {}" by (simp add: resultKeys_def)
  with res(2) decoded_commonPairs [OF cf] Cons have "resultKeys res = commonKeys files" by simp
  with res(1) Cons show ?thesis by (simp add: runAnalysis_def)
qed

text \<open>Two such files: a key that both have gets a series with the two values in file
  order and their difference as \<open>delta\<close>.\<close>

lemma runAnalysis_two_plain:
  assumes "colonFree f1 \<and> plainNames f1" and "colonFree f2 \<and> plainNames f2"
    and "map_of (data f1) c = Some ms1" and "map_of ms1 m = Some r1"
    and "map_of (data f2) c = Some ms2" and "map_of ms2 m = Some r2"
  shows "\<exists>res ms s. runAnalysis (Array [f1, f2]) = Inr res
     \<and> map_of res c = Some ms \<and> map_of ms m = Some s
     \<and> svalues s = [Prim (rvalue r1), Prim (rvalue r2)]
     \<and> sflags s = [Flag (isFlagged r1), Flag (isFlagged r2)]
     \<and> delta s = Number (jssub (toNumber (rvalue r2)) (toNumber (rvalue r1)))"
proof -
  let ?files = "[f1, f2]"
  from assms(1,2) have pl: "\<forall>f \<in> set ?files. colonFree f \<and> plainNames f" by simp
  then have cf: "\<forall>f \<in> set ?files. colonFree f" by simp
  from runAnalysis_keys_plain [OF pl] obtain res where
    res: "runAnalysis (Array ?files) = Inr res" and keys: "resultKeys res = commonKeys ?files"
    by blast
  have "(c, m) \<in> commonKeys ?files"
    using assms(3-6) by (simp add: commonKeys_def hasMetric_def)
  with keys have "(c, m) \<in> resultKeys res" by simp
  then obtain ms where "map_of res c = Some ms" "map_of ms m \<noteq> None"
    by (cases "map_of res c") (auto simp: resultKeys_def)
  then obtain s where ms: "map_of res c = Some ms" "map_of ms m = Some s" by auto
  from series_entries_colonFree [OF cf res ms, of 0] assms(3,4)
  have e0: "svalues s ! 0 = Prim (rvalue r1)" "sflags s ! 0 = Flag (isFlagged r1)" by simp_all
  from series_entries_colonFree [OF cf res ms, of 1] assms(5,6)
  have e1: "svalues s ! 1 = Prim (rvalue r2)" "sflags s ! 1 = Flag (isFlagged r2)" by simp_all
  from runAnalysis_series [OF res ms] obtain rs ps where
    ps: "length ps = length ?files"
    and s: "s = makeSeries (length ?files) (map fst ps) (map snd ps)"
    by blast
  from ps obtain a b where ab: "ps = [a, b]"
    by (cases ps; cases "tl ps"; cases "tl (tl ps)") auto
  with s e0 e1 have "svalues s = [Prim (rvalue r1), Prim (rvalue r2)]"
    "sflags s = [Flag (isFlagged r1), Flag (isFlagged r2)]"
    by (simp_all add: makeSeries_def)
  moreover from this s ab
  have "delta s = Number (jssub (toNumber (rvalue r2)) (toNumber (rvalue r1)))"
    by (simp add: makeSeries_def operand_def)
  ultimately show ?thesis using res ms by blast
qed

lemma map_of_toFileData:
  "map_of (data (toFileData n dm)) c = map_option props (map_of dm c)"
  by (induction dm) (auto simp: toFileData_def)

text \<open>
  The round trip for two texts that the parser accepts without touching the realm:
  when the names are free of colons and of property names of \<open>Object.prototype\<close>, a key
  that both results have gets the two parsed numbers in file order, and \<open>delta\<close> is the
  second minus the first.
\<close>

lemma parse_then_analyse_plain:
  assumes "parseVngText (Str t1) = Inr (d1, [])" and "parseVngText (Str t2) = Inr (d2, [])"
    and "colonFree (toFileData n1 d1) \<and> plainNames (toFileData n1 d1)"
    and "colonFree (toFileData n2 d2) \<and> plainNames (toFileData n2 d2)"
    and "map_of d1 c = Some o1" and "map_of (props o1) m = Some r1"
    and "map_of d2 c = Some o2" and "map_of (props o2) m = Some r2"
  shows "\<exists>res ms s v1 v2. runAnalysis (Array [toFileData n1 d1, toFileData n2 d2]) = Inr res
     \<and> map_of res c = Some ms \<and> map_of ms m = Some s
     \<and> rvalue r1 = Number (Num v1) \<and> rvalue r2 = Number (Num v2)
     \<and> svalues s = [Prim (Number (Num v1)), Prim (Number (Num v2))]
     \<and> sflags s = [Flag (isFlagged r1), Flag (isFlagged r2)]
     \<and> delta s = Number (Num (v2 - v1))"
proof -
  from assms(1) have "numericMap d1"
    unfolding parseVngText_def by (rule numericMap_parseVngTextIn)
  with assms(5,6) obtain v1 where v1: "rvalue r1 = Number (Num v1)"
    unfolding numericMap_def by blast
  from assms(2) have "numericMap d2"
    unfolding parseVngText_def by (rule numericMap_parseVngTextIn)
  with assms(7,8) obtain v2 where v2: "rvalue r2 = Number (Num v2)"
    unfolding numericMap_def by blast
  have "map_of (data (toFileData n1 d1)) c = Some (props o1)"
    "map_of (data (toFileData n2 d2)) c = Some (props o2)"
    using assms(5,7) by (simp_all add: map_of_toFileData)
  from runAnalysis_two_plain [OF assms(3,4) this(1) assms(6) this(2) assms(8)]
  obtain res ms s where "runAnalysis (Array [toFileData n1 d1, toFileData n2 d2]) = Inr res"
    "map_of res c = Some ms" "map_of ms m = Some s"
    "svalues s = [Prim (rvalue r1), Prim (rvalue r2)]"
    "sflags s = [Flag (isFlagged r1), Flag (isFlagged r2)]"
    "delta s = Number (jssub (toNumber (rvalue r2)) (toNumber (rvalue r1)))"
    by blast
  with v1 v2 show ?thesis by auto
qed

section \<open>The claims about the analyzer\<close>

lemmas analyzer_eval =
  runAnalysis_def pairKeys_def setAdd_def analysePair_def decodePair_def splitStr_def
  lookupMetric_def objectPrototypeNames_def storeSeries_def makeSeries_def
  freshRealm_def inheritedIn_def inheritedProperty_def ownProperty_def initialProperty_def
  getProperty_def findProperty_def protoChain_def prototypeOf_def valueOfData_def
  flagOfData_def convertible_def operand_def assign_def truthy_def functionLength_def
  functionPrototypeMethods_def objectStaticNames_def numeral_3_eq_3 Let_def

text \<open>
  Claim C2. In every series of the result: with exactly two files \<open>delta\<close> is
  \<open>values[1] - values[0]\<close> and \<open>percentChange\<close> is
  \<open>calculatePercentChange(values[0], values[1])\<close>, with any other number of files both
  are \<open>null\<close>; \<open>stdDev\<close> is \<open>calculateStdDev(values)\<close> with two files or more and \<open>null\<close>
  otherwise. With one file all three are \<open>null\<close>. This holds for every result that
  \<open>runAnalysis\<close> returns, also for a series whose values were read from inherited
  objects; \<open>operand\<close> is the identity on the value of a reading.
\<close>

theorem series_statistics:
  "runAnalysis (Array files) = Inr res \<and> map_of res c = Some ms \<and> map_of ms m = Some s \<longrightarrow>
     (length files = 2 \<longrightarrow>
        delta s = Number (jssub (toNumber (operand (svalues s ! 1)))
                                (toNumber (operand (svalues s ! 0))))
        \<and> percentChange s
            = calculatePercentChange (operand (svalues s ! 0)) (operand (svalues s ! 1)))
     \<and> (length files \<noteq> 2 \<longrightarrow> delta s = Null \<and> percentChange s = Null)
     \<and> (2 \<le> length files \<longrightarrow>
          stdDev s = Number (calculateStdDev (Array (map operand (svalues s)))))
     \<and> (length files < 2 \<longrightarrow> stdDev s = Null)
     \<and> (length files = 1 \<longrightarrow> delta s = Null \<and> percentChange s = Null \<and> stdDev s = Null)"
proof (intro impI, elim conjE)
  assume a: "runAnalysis (Array files) = Inr res" "map_of res c = Some ms" "map_of ms m = Some s"
  from a obtain rs ps where ps: "collect rs files c m = Inr ps" "length ps = length files"
    "s = makeSeries (length files) (map fst ps) (map snd ps)"
    by (rule runAnalysis_series)
  show "(length files = 2 \<longrightarrow>
        delta s = Number (jssub (toNumber (operand (svalues s ! 1)))
                                (toNumber (operand (svalues s ! 0))))
        \<and> percentChange s
            = calculatePercentChange (operand (svalues s ! 0)) (operand (svalues s ! 1)))
     \<and> (length files \<noteq> 2 \<longrightarrow> delta s = Null \<and> percentChange s = Null)
     \<and> (2 \<le> length files \<longrightarrow>
          stdDev s = Number (calculateStdDev (Array (map operand (svalues s)))))
     \<and> (length files < 2 \<longrightarrow> stdDev s = Null)
     \<and> (length files = 1 \<longrightarrow> delta s = Null \<and> percentChange s = Null \<and> stdDev s = Null)"
    unfolding ps(3) by (simp add: makeSeries_def)
qed

lemma runAnalysis_two_files:
  "runAnalysis (Array
     [\<lparr>name = ''a.txt'', data = [(''Saccades'', [(''Latency'', \<lparr>rvalue = Number (Num 100), isFlagged = False\<rparr>)])]\<rparr>,
      \<lparr>name = ''b.txt'', data = [(''Saccades'', [(''Latency'', \<lparr>rvalue = Number (Num 150), isFlagged = True\<rparr>)])]\<rparr>])
   = Inr [(''Saccades'', [(''Latency'',
        \<lparr>svalues = [Prim (Number (Num 100)), Prim (Number (Num 150))],
         sflags = [Flag False, Flag True],
         delta = Number (Num 50),
         stdDev = Number (calculateStdDev (Array [Number (Num 100), Number (Num 150)])),
         percentChange = Number (Num 50)\<rparr>)])]"
  by (simp add: analyzer_eval calculatePercentChange_def)

lemma runAnalysis_one_file:
  "runAnalysis (Array
     [\<lparr>name = ''a.txt'', data = [(''Saccades'', [(''Latency'', \<lparr>rvalue = Number (Num 100), isFlagged = False\<rparr>)])]\<rparr>])
   = Inr [(''Saccades'', [(''Latency'',
        \<lparr>svalues = [Prim (Number (Num 100))], sflags = [Flag False],
         delta = Null, stdDev = Null, percentChange = Null\<rparr>)])]"
  by (simp add: analyzer_eval)

theorem series_statistics_witness:
  "delta \<lparr>svalues = [Prim (Number (Num 100)), Prim (Number (Num 150))],
         sflags = [Flag False, Flag True],
         delta = Number (Num 50),
         stdDev = Number (calculateStdDev (Array [Number (Num 100), Number (Num 150)])),
         percentChange = Number (Num 50)\<rparr>
     = Number (jssub (toNumber (Number (Num 150))) (toNumber (Number (Num 100))))
   \<and> percentChange \<lparr>svalues = [Prim (Number (Num 100)), Prim (Number (Num 150))],
         sflags = [Flag False, Flag True],
         delta = Number (Num 50),
         stdDev = Number (calculateStdDev (Array [Number (Num 100), Number (Num 150)])),
         percentChange = Number (Num 50)\<rparr>
     = calculatePercentChange (Number (Num 100)) (Number (Num 150))
   \<and> delta \<lparr>svalues = [Prim (Number (Num 100))], sflags = [Flag False],
         delta = Null, stdDev = Null, percentChange = Null\<rparr> = Null
   \<and> stdDev \<lparr>svalues = [Prim (Number (Num 100))], sflags = [Flag False],
         delta = Null, stdDev = Null, percentChange = Null\<rparr> = Null"
  using series_statistics [where c = "''Saccades''" and m = "''Latency''"
      and files = "[\<lparr>name = ''a.txt'', data = [(''Saccades'', [(''Latency'', \<lparr>rvalue = Number (Num 100), isFlagged = False\<rparr>)])]\<rparr>,
      \<lparr>name = ''b.txt'', data = [(''Saccades'', [(''Latency'', \<lparr>rvalue = Number (Num 150), isFlagged = True\<rparr>)])]\<rparr>]"
      and res = "[(''Saccades'', [(''Latency'',
        \<lparr>svalues = [Prim (Number (Num 100)), Prim (Number (Num 150))],
         sflags = [Flag False, Flag True],
         delta = Number (Num 50),
         stdDev = Number (calculateStdDev (Array [Number (Num 100), Number (Num 150)])),
         percentChange = Number (Num 50)\<rparr>)])]"
      and ms = "[(''Latency'',
        \<lparr>svalues = [Prim (Number (Num 100)), Prim (Number (Num 150))],
         sflags = [Flag False, Flag True],
         delta = Number (Num 50),
         stdDev = Number (calculateStdDev (Array [Number (Num 100), Number (Num 150)])),
         percentChange = Number (Num 50)\<rparr>)]"
      and s = "\<lparr>svalues = [Prim (Number (Num 100)), Prim (Number (Num 150))],
         sflags = [Flag False, Flag True],
         delta = Number (Num 50),
         stdDev = Number (calculateStdDev (Array [Number (Num 100), Number (Num 150)])),
         percentChange = Number (Num 50)\<rparr>"]
    series_statistics [where c = "''Saccades''" and m = "''Latency''"
      and files = "[\<lparr>name = ''a.txt'', data = [(''Saccades'', [(''Latency'', \<lparr>rvalue = Number (Num 100), isFlagged = False\<rparr>)])]\<rparr>]"
      and res = "[(''Saccades'', [(''Latency'',
        \<lparr>svalues = [Prim (Number (Num 100))], sflags = [Flag False],
         delta = Null, stdDev = Null, percentChange = Null\<rparr>)])]"
      and ms = "[(''Latency'',
        \<lparr>svalues = [Prim (Number (Num 100))], sflags = [Flag False],
         delta = Null, stdDev = Null, percentChange = Null\<rparr>)]"
      and s = "\<lparr>svalues = [Prim (Number (Num 100))], sflags = [Flag False],
         delta = Null, stdDev = Null, percentChange = Null\<rparr>"]
    runAnalysis_two_files runAnalysis_one_file
  by (simp add: operand_def)

text \<open>
  Claim C1 fails on the code. The analyzer joins category and metric with \<open>::\<close> and
  later splits the joined key at every \<open>::\<close>, taking the first two pieces. A category
  \<open>A::B\<close> with the metric \<open>m\<close>, which the parser produces from the header \<open>A::B:\<close>, is
  looked up as category \<open>A\<close> and metric \<open>B\<close>, is found in no file and is dropped: the
  key is in every file and not in the result.
\<close>

theorem runAnalysis_separator_in_category:
  "(''A::B'', ''m'') \<in> commonKeys
      [\<lparr>name = ''a.txt'', data = [(''A::B'', [(''m'', \<lparr>rvalue = Number (Num 1), isFlagged = False\<rparr>)])]\<rparr>]
   \<and> runAnalysis (Array
      [\<lparr>name = ''a.txt'', data = [(''A::B'', [(''m'', \<lparr>rvalue = Number (Num 1), isFlagged = False\<rparr>)])]\<rparr>])
     = Inr []
   \<and> resultKeys [] = {}"
  by (simp add: analyzer_eval commonKeys_def hasMetric_def resultKeys_def)

text \<open>
  Claim C7 fails on the code, by the defect of claim C1. The two texts below parse to
  the same keys, the category \<open>A::B\<close> with the metric \<open>m\<close>; the analysis of the two
  parsed files has no series for that key, so no values and no delta.
\<close>

theorem parse_then_analyse_separator:
  "parseVngText (Str ''A::B:\<newline>m: 1'')
     = Inr ([(''A::B'', \<lparr>props = [(''m'', \<lparr>rvalue = Number (Num 1), isFlagged = False\<rparr>)],
                         protoLink = None\<rparr>)], [])
   \<and> parseVngText (Str ''A::B:\<newline>m: 2'')
     = Inr ([(''A::B'', \<lparr>props = [(''m'', \<lparr>rvalue = Number (Num 2), isFlagged = False\<rparr>)],
                         protoLink = None\<rparr>)], [])
   \<and> runAnalysis (Array
        [toFileData ''one.txt''
           [(''A::B'', \<lparr>props = [(''m'', \<lparr>rvalue = Number (Num 1), isFlagged = False\<rparr>)],
                        protoLink = None\<rparr>)],
         toFileData ''two.txt''
           [(''A::B'', \<lparr>props = [(''m'', \<lparr>rvalue = Number (Num 2), isFlagged = False\<rparr>)],
                        protoLink = None\<rparr>)]])
     = Inr []"
proof -
  have a: "parseVngText (Str ''A::B:\<newline>m: 1'')
     = Inr ([(''A::B'', \<lparr>props = [(''m'', \<lparr>rvalue = Number (Num 1), isFlagged = False\<rparr>)],
                         protoLink = None\<rparr>)], [])"
    by code_simp
  have b: "parseVngText (Str ''A::B:\<newline>m: 2'')
     = Inr ([(''A::B'', \<lparr>props = [(''m'', \<lparr>rvalue = Number (Num 2), isFlagged = False\<rparr>)],
                         protoLink = None\<rparr>)], [])"
    by code_simp
  have c: "runAnalysis (Array
        [toFileData ''one.txt''
           [(''A::B'', \<lparr>props = [(''m'', \<lparr>rvalue = Number (Num 1), isFlagged = False\<rparr>)],
                        protoLink = None\<rparr>)],
         toFileData ''two.txt''
           [(''A::B'', \<lparr>props = [(''m'', \<lparr>rvalue = Number (Num 2), isFlagged = False\<rparr>)],
                        protoLink = None\<rparr>)]])
     = Inr []"
    by (simp add: analyzer_eval toFileData_def)
  from a b c show ?thesis by simp
qed

text \<open>
  Claim C9 fails on the code. The values and the flags of a series are as many as the
  files (lemma \<open>series_lengths\<close>), but their entries need not come from the files. The
  two texts below parse to the categories \<open>A\<close>, with the metric \<open>x\<close>, and
  \<open>A::toString\<close>, with the metric \<open>m\<close>. The analyzer splits the joined key
  \<open>A::toString::m\<close> into the category \<open>A\<close> and the metric \<open>toString\<close>; the test of
  line 71 finds the function \<open>toString\<close> that the object of the category inherits from
  \<open>Object.prototype\<close>, and lines 73 and 74 push its properties \<open>value\<close> and
  \<open>isFlagged\<close>, which are \<open>undefined\<close>. The result has a series for \<open>A\<close> and
  \<open>toString\<close>, a metric that neither file has, whose values and flags are \<open>undefined\<close>.
\<close>

theorem runAnalysis_inherited_metric:
  "parseVngText (Str ''A:\<newline>x: 1\<newline>A::toString:\<newline>m: 1'')
     = Inr ([(''A'', \<lparr>props = [(''x'', \<lparr>rvalue = Number (Num 1), isFlagged = False\<rparr>)],
                      protoLink = None\<rparr>),
             (''A::toString'', \<lparr>props = [(''m'', \<lparr>rvalue = Number (Num 1), isFlagged = False\<rparr>)],
                                protoLink = None\<rparr>)], [])
   \<and> parseVngText (Str ''A:\<newline>x: 2\<newline>A::toString:\<newline>m: 2'')
     = Inr ([(''A'', \<lparr>props = [(''x'', \<lparr>rvalue = Number (Num 2), isFlagged = False\<rparr>)],
                      protoLink = None\<rparr>),
             (''A::toString'', \<lparr>props = [(''m'', \<lparr>rvalue = Number (Num 2), isFlagged = False\<rparr>)],
                                protoLink = None\<rparr>)], [])
   \<and> runAnalysis (Array
        [toFileData ''one.txt''
           [(''A'', \<lparr>props = [(''x'', \<lparr>rvalue = Number (Num 1), isFlagged = False\<rparr>)],
                     protoLink = None\<rparr>),
            (''A::toString'', \<lparr>props = [(''m'', \<lparr>rvalue = Number (Num 1), isFlagged = False\<rparr>)],
                               protoLink = None\<rparr>)],
         toFileData ''two.txt''
           [(''A'', \<lparr>props = [(''x'', \<lparr>rvalue = Number (Num 2), isFlagged = False\<rparr>)],
                     protoLink = None\<rparr>),
            (''A::toString'', \<lparr>props = [(''m'', \<lparr>rvalue = Number (Num 2), isFlagged = False\<rparr>)],
                               protoLink = None\<rparr>)]])
     = Inr [(''A'',
             [(''x'', \<lparr>svalues = [Prim (Number (Num 1)), Prim (Number (Num 2))],
                       sflags = [Flag False, Flag False],
                       delta = Number (Num 1),
                       stdDev = Number (calculateStdDev (Array [Number (Num 1), Number (Num 2)])),
                       percentChange = Number (Num 100)\<rparr>),
              (''toString'', \<lparr>svalues = [Prim Undefined, Prim Undefined],
                              sflags = [FlagUndefined, FlagUndefined],
                              delta = Number NaN,
                              stdDev = Number (Num 0),
                              percentChange = Null\<rparr>)])]
   \<and> \<not> hasMetric
        (toFileData ''one.txt''
           [(''A'', \<lparr>props = [(''x'', \<lparr>rvalue = Number (Num 1), isFlagged = False\<rparr>)],
                     protoLink = None\<rparr>),
            (''A::toString'', \<lparr>props = [(''m'', \<lparr>rvalue = Number (Num 1), isFlagged = False\<rparr>)],
                               protoLink = None\<rparr>)])
        ''A'' ''toString''"
proof -
  have a: "parseVngText (Str ''A:\<newline>x: 1\<newline>A::toString:\<newline>m: 1'')
     = Inr ([(''A'', \<lparr>props = [(''x'', \<lparr>rvalue = Number (Num 1), isFlagged = False\<rparr>)],
                      protoLink = None\<rparr>),
             (''A::toString'', \<lparr>props = [(''m'', \<lparr>rvalue = Number (Num 1), isFlagged = False\<rparr>)],
                                protoLink = None\<rparr>)], [])"
    by code_simp
  have b: "parseVngText (Str ''A:\<newline>x: 2\<newline>A::toString:\<newline>m: 2'')
     = Inr ([(''A'', \<lparr>props = [(''x'', \<lparr>rvalue = Number (Num 2), isFlagged = False\<rparr>)],
                      protoLink = None\<rparr>),
             (''A::toString'', \<lparr>props = [(''m'', \<lparr>rvalue = Number (Num 2), isFlagged = False\<rparr>)],
                                protoLink = None\<rparr>)], [])"
    by code_simp
  have sd: "calculateStdDev (Array [Undefined, Undefined]) = Num 0"
    by (simp add: calculateStdDev_def)
  have c: "runAnalysis (Array
        [toFileData ''one.txt''
           [(''A'', \<lparr>props = [(''x'', \<lparr>rvalue = Number (Num 1), isFlagged = False\<rparr>)],
                     protoLink = None\<rparr>),
            (''A::toString'', \<lparr>props = [(''m'', \<lparr>rvalue = Number (Num 1), isFlagged = False\<rparr>)],
                               protoLink = None\<rparr>)],
         toFileData ''two.txt''
           [(''A'', \<lparr>props = [(''x'', \<lparr>rvalue = Number (Num 2), isFlagged = False\<rparr>)],
                     protoLink = None\<rparr>),
            (''A::toString'', \<lparr>props = [(''m'', \<lparr>rvalue = Number (Num 2), isFlagged = False\<rparr>)],
                               protoLink = None\<rparr>)]])
     = Inr [(''A'',
             [(''x'', \<lparr>svalues = [Prim (Number (Num 1)), Prim (Number (Num 2))],
                       sflags = [Flag False, Flag False],
                       delta = Number (Num 1),
                       stdDev = Number (calculateStdDev (Array [Number (Num 1), Number (Num 2)])),
                       percentChange = Number (Num 100)\<rparr>),
              (''toString'', \<lparr>svalues = [Prim Undefined, Prim Undefined],
                              sflags = [FlagUndefined, FlagUndefined],
                              delta = Number NaN,
                              stdDev = Number (Num 0),
                              percentChange = Null\<rparr>)])]"
    by (simp add: analyzer_eval toFileData_def calculatePercentChange_def sd)
  have d: "\<not> hasMetric
        (toFileData ''one.txt''
           [(''A'', \<lparr>props = [(''x'', \<lparr>rvalue = Number (Num 1), isFlagged = False\<rparr>)],
                     protoLink = None\<rparr>),
            (''A::toString'', \<lparr>props = [(''m'', \<lparr>rvalue = Number (Num 1), isFlagged = False\<rparr>)],
                               protoLink = None\<rparr>)])
        ''A'' ''toString''"
    by (simp add: hasMetric_def toFileData_def)
  from a b c d show ?thesis by simp
qed

section \<open>Further runs through inherited names\<close>

text \<open>
  A category that is a name of \<open>Object.prototype\<close> is not created in the result: the
  series is assigned to the inherited object, here to the function \<open>Object\<close>, and the
  result stays empty.
\<close>

lemma runAnalysis_category_constructor:
  "runAnalysis (Array
     [\<lparr>name = ''a.txt'',
       data = [(''constructor'', [(''x'', \<lparr>rvalue = Number (Num 1), isFlagged = False\<rparr>)])]\<rparr>])
   = Inr []"
  by (simp add: analyzer_eval)

text \<open>The assignment of a series under the metric \<open>__proto__\<close> replaces the prototype
  of the category object and adds no entry to it.\<close>

lemma runAnalysis_metric_proto:
  "runAnalysis (Array
     [\<lparr>name = ''a.txt'',
       data = [(''A'', [(''__proto__'', \<lparr>rvalue = Number (Num 1), isFlagged = False\<rparr>)])]\<rparr>])
   = Inr [(''A'', [])]"
  by (simp add: analyzer_eval)

text \<open>The key \<open>__proto__::toString::x\<close> is split into the category \<open>__proto__\<close> and the
  metric \<open>toString\<close>: the series is assigned to \<open>Object.prototype.toString\<close>, and the
  result is empty.\<close>

lemma runAnalysis_proto_toString:
  "runAnalysis (Array
     [\<lparr>name = ''a.txt'',
       data = [(''__proto__::toString'', [(''x'', \<lparr>rvalue = Number (Num 1), isFlagged = False\<rparr>)])]\<rparr>])
   = Inr []"
  by (simp add: analyzer_eval)

text \<open>The key \<open>constructor::caller::x\<close> makes the test of line 71 read
  \<open>Object.caller\<close>, which throws.\<close>

lemma runAnalysis_caller_throws:
  "runAnalysis (Array
     [\<lparr>name = ''a.txt'',
       data = [(''constructor::caller'', [(''x'', \<lparr>rvalue = Number (Num 1), isFlagged = False\<rparr>)])]\<rparr>])
   = Inl TypeError"
  by (simp add: analyzer_eval)
end
